theory Spec2Isabelle
  imports Main
begin

section \<open>JavaScript values\<close>

text \<open>
  The relay is JavaScript. The values it handles are strings or \<open>undefined\<close> (headers,
  query parameters, environment variables: modelled as \<open>string option\<close>), numbers that
  may be \<open>NaN\<close> (the limit), and JSON values parsed from upstream bodies. A query
  parameter given several times (an array in the hosting framework) is not modelled.
  A \<open>JObj\<close> lists the own properties of an object in enumeration order; JSON numbers
  only enter the code through truthiness, so they are integers here. Strings are
  sequences of code units below 256. The message of an error that the engine raises
  (a value that is not iterable, a body that does not parse) is the engine's own; the
  model fixes one text for each.
\<close>

datatype jsval =
    Undefined
  | Null
  | JBool bool
  | JNum int
  | JStr string
  | JArr "jsval list"
  | JObj "(string \<times> jsval) list"

datatype jsnum = NaN | Num int

datatype js_error = TypeError string | SyntaxError string | FetchError string

text \<open>Truthiness, as \<open>!x\<close>, \<open>x || y\<close> and \<open>if (x)\<close> read it.\<close>

fun truthy :: "jsval \<Rightarrow> bool" where
  "truthy Undefined = False"
| "truthy Null = False"
| "truthy (JBool b) = b"
| "truthy (JNum n) = (n \<noteq> 0)"
| "truthy (JStr s) = (s \<noteq> [])"
| "truthy (JArr xs) = True"
| "truthy (JObj ps) = True"

text \<open>A string-or-undefined value is truthy when it is a non-empty string.\<close>

fun truthy_s :: "string option \<Rightarrow> bool" where
  "truthy_s None = False"
| "truthy_s (Some s) = (s \<noteq> [])"

text \<open>\<open>x || d\<close> for a string-or-undefined \<open>x\<close> and a string default \<open>d\<close>.\<close>

fun or_default :: "string option \<Rightarrow> string \<Rightarrow> string" where
  "or_default None d = d"
| "or_default (Some s) d = (if s \<noteq> [] then s else d)"

text \<open>\<open>x || alt\<close> on JSON values.\<close>

definition js_or :: "jsval \<Rightarrow> jsval \<Rightarrow> jsval" where
  "js_or x alt = (if truthy x then x else alt)"

text \<open>
  Property access. \<open>opt_dot v f\<close> is \<open>v?.f\<close>: \<open>undefined\<close> on \<open>null\<close> and
  \<open>undefined\<close>, the property's value on an object, \<open>undefined\<close> when the object
  lacks it (none of the names the relay reads is a built-in property of strings,
  arrays or \<open>Object.prototype\<close>). \<open>dot v f\<close> is \<open>v.f\<close>, which throws on \<open>null\<close>
  and \<open>undefined\<close>.
\<close>

fun opt_dot :: "jsval \<Rightarrow> string \<Rightarrow> jsval" where
  "opt_dot (JObj ps) f = (case map_of ps f of None \<Rightarrow> Undefined | Some v \<Rightarrow> v)"
| "opt_dot v f = Undefined"

fun dot :: "jsval \<Rightarrow> string \<Rightarrow> js_error + jsval" where
  "dot Undefined f = Inl (TypeError ''Cannot read properties of undefined'')"
| "dot Null f = Inl (TypeError ''Cannot read properties of null'')"
| "dot v f = Inr (opt_dot v f)"

text \<open>
  What \<open>for (const x of v)\<close> iterates: the elements of an array, the characters of
  a string; any other value is not iterable and the loop throws.
\<close>

fun iterate :: "jsval \<Rightarrow> js_error + jsval list" where
  "iterate (JArr xs) = Inr xs"
| "iterate (JStr s) = Inr (map (\<lambda>c. JStr [c]) s)"
| "iterate v = Inl (TypeError ''not iterable'')"

subsection \<open>Numbers: parseInt, Math.max, Math.min, comparison with NaN\<close>

definition is_ws :: "char \<Rightarrow> bool" where
  "is_ws c = (c \<in> set [CHR 0x20, CHR 0x09, CHR 0x0A, CHR 0x0B, CHR 0x0C, CHR 0x0D, CHR 0xA0])"

definition is_digit :: "char \<Rightarrow> bool" where
  "is_digit c = (48 \<le> (of_char c :: nat) \<and> (of_char c :: nat) \<le> 57)"

definition digit_val :: "char \<Rightarrow> nat" where
  "digit_val c = of_char c - 48"

fun digits_val :: "nat \<Rightarrow> string \<Rightarrow> nat" where
  "digits_val acc [] = acc"
| "digits_val acc (c # cs) = digits_val (10 * acc + digit_val c) cs"

text \<open>
  \<open>parseInt(s, 10)\<close>: leading white space is skipped (among the code units below
  256: tab, line feed, vertical tab, form feed, carriage return, space and the
  no-break space), one sign is read, then the longest run of decimal digits; no digit
  gives \<open>NaN\<close>. The integer is exact here;
  the relay only compares it with 1 and 25, which rounding to a double preserves.
\<close>

definition strip_sign :: "string \<Rightarrow> bool \<times> string" where
  "strip_sign t =
     (case t of
        [] \<Rightarrow> (False, [])
      | c # r \<Rightarrow> if c = CHR ''-'' then (True, r) else if c = CHR ''+'' then (False, r) else (False, t))"

definition parseInt10 :: "string \<Rightarrow> jsnum" where
  "parseInt10 s =
     (let (neg, u) = strip_sign (dropWhile is_ws s);
          ds = takeWhile is_digit u
      in if ds = [] then NaN
         else Num (if neg then - int (digits_val 0 ds) else int (digits_val 0 ds)))"

fun js_max :: "jsnum \<Rightarrow> jsnum \<Rightarrow> jsnum" where
  "js_max (Num a) (Num b) = Num (max a b)"
| "js_max a b = NaN"

fun js_min :: "jsnum \<Rightarrow> jsnum \<Rightarrow> jsnum" where
  "js_min (Num a) (Num b) = Num (min a b)"
| "js_min a b = NaN"

text \<open>\<open>n >= limit\<close> for an array length \<open>n\<close>: false whenever the limit is \<open>NaN\<close>.\<close>

fun ge_num :: "nat \<Rightarrow> jsnum \<Rightarrow> bool" where
  "ge_num n NaN = False"
| "ge_num n (Num l) = (int n \<ge> l)"

text \<open>\<open>String(n)\<close> for an integer (below the magnitude where JavaScript switches to
  exponent notation) and for \<open>NaN\<close>.\<close>

definition digit_char :: "nat \<Rightarrow> char" where
  "digit_char d = ''0123456789'' ! d"

function show_nat :: "nat \<Rightarrow> string" where
  "show_nat n = (if n < 10 then [digit_char n] else show_nat (n div 10) @ [digit_char (n mod 10)])"
  by pat_completeness auto
termination
  by (relation "measure (\<lambda>n. n)") auto

declare show_nat.simps [simp del]

definition show_int :: "int \<Rightarrow> string" where
  "show_int i = (if i < 0 then CHR ''-'' # show_nat (nat (- i)) else show_nat (nat i))"

fun show_num :: "jsnum \<Rightarrow> string" where
  "show_num NaN = ''NaN''"
| "show_num (Num i) = show_int i"

subsection \<open>Strings\<close>

text \<open>\<open>s.startsWith(p)\<close> and \<open>s.includes(p)\<close>.\<close>

fun starts_with :: "string \<Rightarrow> string \<Rightarrow> bool" where
  "starts_with s [] = True"
| "starts_with [] (p # ps) = False"
| "starts_with (c # cs) (p # ps) = (c = p \<and> starts_with cs ps)"

fun includes_s :: "string \<Rightarrow> string \<Rightarrow> bool" where
  "includes_s [] p = (p = [])"
| "includes_s (c # cs) p = (starts_with (c # cs) p \<or> includes_s cs p)"

subsection \<open>Insertion-ordered maps and object spread\<close>

text \<open>
  A JavaScript \<open>Map\<close> iterates in insertion order; \<open>set\<close> on a key it holds keeps
  the key's position, \<open>delete\<close> removes the key.
\<close>

fun map_set :: "'k \<Rightarrow> 'v \<Rightarrow> ('k \<times> 'v) list \<Rightarrow> ('k \<times> 'v) list" where
  "map_set k v [] = [(k, v)]"
| "map_set k v (p # m) = (if fst p = k then (k, v) # m else p # map_set k v m)"

definition map_delete :: "'k \<Rightarrow> ('k \<times> 'v) list \<Rightarrow> ('k \<times> 'v) list" where
  "map_delete k m = filter (\<lambda>p. fst p \<noteq> k) m"

text \<open>The own enumerable properties that \<open>{...v}\<close> copies.\<close>

fun own_props :: "jsval \<Rightarrow> (string \<times> jsval) list" where
  "own_props (JObj ps) = ps"
| "own_props (JArr xs) = zip (map show_nat [0..<length xs]) xs"
| "own_props (JStr s) = zip (map show_nat [0..<length s]) (map (\<lambda>c. JStr [c]) s)"
| "own_props v = []"

text \<open>\<open>{...v, f: x}\<close>.\<close>

definition spread_with :: "jsval \<Rightarrow> string \<Rightarrow> jsval \<Rightarrow> jsval" where
  "spread_with v f x = JObj (map_set f x (own_props v))"

text \<open>The property names of a response body.\<close>

fun keys_of :: "jsval \<Rightarrow> string list" where
  "keys_of (JObj ps) = map fst ps"
| "keys_of v = []"

section \<open>The cache (part_000, lines 1-19)\<close>

record entry =
  ent_ts :: int
  ent_value :: jsval

type_synonym cache = "(string \<times> entry) list"

definition TTL_MS :: int where
  "TTL_MS = 10 * 60 * 1000"

text \<open>
  \<open>getCache\<close> reads the clock once (\<open>now\<close>); it returns \<open>null\<close> for a missing or an
  expired entry and deletes the expired one.
\<close>

definition getCache :: "int \<Rightarrow> cache \<Rightarrow> string \<Rightarrow> jsval \<times> cache" where
  "getCache now c key =
     (case map_of c key of
        None \<Rightarrow> (Null, c)
      | Some item \<Rightarrow>
          if now - ent_ts item > TTL_MS then (Null, map_delete key c)
          else (ent_value item, c))"

definition setCache :: "int \<Rightarrow> cache \<Rightarrow> string \<Rightarrow> jsval \<Rightarrow> cache" where
  "setCache now c key v = map_set key \<lparr>ent_ts = now, ent_value = v\<rparr> c"

text \<open>
  The scan of the rate-limit fallback (lines 92-96): the first entry, in the map's
  order, whose key starts with the file key and a bar and whose age is within the TTL.
  The loop runs without suspension, so one clock reading stands for it.
\<close>

fun scan_fallback :: "int \<Rightarrow> string \<Rightarrow> cache \<Rightarrow> jsval option" where
  "scan_fallback now fileKey [] = None"
| "scan_fallback now fileKey (kv # rest) =
     (if starts_with (fst kv) (fileKey @ ''|'') \<and> now - ent_ts (snd kv) \<le> TTL_MS
      then Some (ent_value (snd kv))
      else scan_fallback now fileKey rest)"

section \<open>The upstream (the design-tool API)\<close>

text \<open>
  An upstream call is recorded by what its URL and headers are built from: the file
  key, the depth or the screen ids (joined with commas in the URL), and the token. The
  upstream answers a call with a response or the fetch is rejected. A response has a
  status, a content type, and a body that may or may not parse as JSON
  (\<open>up_json = None\<close>: \<open>resp.json()\<close> rejects).
\<close>

datatype upcall =
    GetFile string string "string option"
  | GetNodes string "jsval list" "string option"

record upstream_resp =
  up_status :: nat
  up_ctype :: "string option"
  up_json :: "jsval option"
  up_text :: "string option"

datatype fetch_result = Rejected string | Fetched upstream_resp

type_synonym upstream = "upcall \<Rightarrow> fetch_result"

definition resp_ok :: "upstream_resp \<Rightarrow> bool" where
  "resp_ok r = (200 \<le> up_status r \<and> up_status r \<le> 299)"

record fetched =
  f_ok :: bool
  f_status :: nat
  f_json :: jsval
  f_text :: string

text \<open>\<open>fetchJson\<close> (lines 21-34), after the fetch has resolved.\<close>

definition fetchJson :: "upstream_resp \<Rightarrow> fetched" where
  "fetchJson r =
     (let ct = or_default (up_ctype r) [] in
      if includes_s ct ''application/json''
      then \<lparr>f_ok = resp_ok r, f_status = up_status r,
            f_json = (case up_json r of None \<Rightarrow> Null | Some j \<Rightarrow> j), f_text = []\<rparr>
      else \<lparr>f_ok = resp_ok r, f_status = up_status r,
            f_json = Null, f_text = (case up_text r of None \<Rightarrow> [] | Some t \<Rightarrow> t)\<rparr>)"

section \<open>Screen selection\<close>

definition mk_screen :: "jsval \<Rightarrow> jsval" where
  "mk_screen node = JObj [(''id'', opt_dot node ''id''), (''name'', opt_dot node ''name'')]"

definition is_screen_type :: "jsval \<Rightarrow> bool" where
  "is_screen_type t = (t \<in> set [JStr ''FRAME'', JStr ''SECTION''])"

text \<open>
  \<open>pickTopScreens\<close> (part_000, lines 36-49). The inner loop returns the screens and
  whether the function returned from inside it (the limit was reached).
\<close>

fun pickNodes :: "jsval list \<Rightarrow> jsnum \<Rightarrow> jsval list \<Rightarrow> bool \<times> jsval list" where
  "pickNodes [] limit screens = (False, screens)"
| "pickNodes (node # rest) limit screens =
     (if is_screen_type (opt_dot node ''type'')
      then (let screens' = screens @ [mk_screen node]
            in if ge_num (length screens') limit then (True, screens')
               else pickNodes rest limit screens')
      else pickNodes rest limit screens)"

fun pickPages :: "jsval list \<Rightarrow> jsnum \<Rightarrow> jsval list \<Rightarrow> js_error + jsval list" where
  "pickPages [] limit screens = Inr screens"
| "pickPages (page # rest) limit screens =
     (if opt_dot page ''type'' \<noteq> JStr ''CANVAS'' then pickPages rest limit screens
      else (case iterate (js_or (opt_dot page ''children'') (JArr [])) of
              Inl e \<Rightarrow> Inl e
            | Inr nodes \<Rightarrow>
                (case pickNodes nodes limit screens of
                   (True, screens') \<Rightarrow> Inr screens'
                 | (False, screens') \<Rightarrow> pickPages rest limit screens')))"

definition pickTopScreens :: "jsval \<Rightarrow> jsnum \<Rightarrow> js_error + jsval list" where
  "pickTopScreens fileJson limit =
     (case iterate (js_or (opt_dot (opt_dot fileJson ''document'') ''children'') (JArr [])) of
        Inl e \<Rightarrow> Inl e
      | Inr pages \<Rightarrow> pickPages pages limit [])"

text \<open>
  The loops of src/api/figma-enrich.js (lines 38-48): plain property access, which
  throws on \<open>null\<close>, a \<open>break\<close> after a qualifying node and another after each
  canvas.
\<close>

fun enrich_nodes :: "jsval list \<Rightarrow> jsnum \<Rightarrow> jsval list \<Rightarrow> js_error + jsval list" where
  "enrich_nodes [] limit screens = Inr screens"
| "enrich_nodes (node # rest) limit screens =
     (case dot node ''type'' of
        Inl e \<Rightarrow> Inl e
      | Inr t \<Rightarrow>
          if is_screen_type t
          then (let screens' = screens @ [mk_screen node]
                in if ge_num (length screens') limit then Inr screens'
                   else enrich_nodes rest limit screens')
          else enrich_nodes rest limit screens)"

fun enrich_pages :: "jsval list \<Rightarrow> jsnum \<Rightarrow> jsval list \<Rightarrow> js_error + jsval list" where
  "enrich_pages [] limit screens = Inr screens"
| "enrich_pages (page # rest) limit screens =
     (case dot page ''type'' of
        Inl e \<Rightarrow> Inl e
      | Inr t \<Rightarrow>
          if t \<noteq> JStr ''CANVAS'' then enrich_pages rest limit screens
          else (case iterate (js_or (opt_dot page ''children'') (JArr [])) of
                  Inl e \<Rightarrow> Inl e
                | Inr nodes \<Rightarrow>
                    (case enrich_nodes nodes limit screens of
                       Inl e \<Rightarrow> Inl e
                     | Inr screens' \<Rightarrow>
                         if ge_num (length screens') limit then Inr screens'
                         else enrich_pages rest limit screens')))"

definition enrich_screens :: "jsval \<Rightarrow> jsnum \<Rightarrow> js_error + jsval list" where
  "enrich_screens fileJson limit =
     (case dot fileJson ''document'' of
        Inl e \<Rightarrow> Inl e
      | Inr d \<Rightarrow>
          (case dot d ''children'' of
             Inl e \<Rightarrow> Inl e
           | Inr ch \<Rightarrow>
               (case iterate (js_or ch (JArr [])) of
                  Inl e \<Rightarrow> Inl e
                | Inr pages \<Rightarrow> enrich_pages pages limit [])))"

text \<open>
  Whether \<open>ids.join(",")\<close> is the empty string, which \<open>if (ids)\<close> tests: no
  element, or a single one that converts to the empty string (\<open>undefined\<close>,
  \<open>null\<close>, the empty string, an array that joins to it). Two elements already give
  a comma.
\<close>

fun join_empty :: "jsval list \<Rightarrow> bool" and elem_empty :: "jsval \<Rightarrow> bool" where
  "join_empty [] = True"
| "join_empty [x] = elem_empty x"
| "join_empty (x # y # zs) = False"
| "elem_empty Undefined = True"
| "elem_empty Null = True"
| "elem_empty (JStr s) = (s = [])"
| "elem_empty (JArr xs) = join_empty xs"
| "elem_empty (JBool b) = False"
| "elem_empty (JNum n) = False"
| "elem_empty (JObj ps) = False"

section \<open>The request handlers\<close>

record request =
  req_method :: string
  x_relay_key :: "string option"
  q_file_key :: "string option"
  q_depth :: "string option"
  q_limit :: "string option"

record env =
  RELAY_KEY :: "string option"
  FIGMA_PAT :: "string option"

text \<open>
  The readings of \<open>Date.now()\<close> during one request: in \<open>getCache\<close>, in the
  fallback scan and in \<open>setCache\<close>.
\<close>

record clock =
  t_get :: int
  t_scan :: int
  t_set :: int

text \<open>
  What a request leaves behind: the response (status and JSON body), the cache, and
  the upstream calls it made, in order.
\<close>

record outcome =
  out_status :: nat
  out_body :: jsval
  out_cache :: cache
  out_calls :: "upcall list"

definition reply :: "nat \<Rightarrow> jsval \<Rightarrow> cache \<Rightarrow> upcall list \<Rightarrow> outcome" where
  "reply st b c cs = \<lparr>out_status = st, out_body = b, out_cache = c, out_calls = cs\<rparr>"

definition err_body :: "string \<Rightarrow> jsval" where
  "err_body msg = JObj [(''error'', JStr msg)]"

fun error_message :: "js_error \<Rightarrow> string" where
  "error_message (TypeError m) = m"
| "error_message (SyntaxError m) = m"
| "error_message (FetchError m) = m"

fun error_name :: "js_error \<Rightarrow> string" where
  "error_name (TypeError m) = ''TypeError''"
| "error_name (SyntaxError m) = ''SyntaxError''"
| "error_name (FetchError m) = ''TypeError''"

text \<open>\<open>String(e)\<close> of an error: its name, and its message after a colon when it has one.\<close>

definition error_string :: "js_error \<Rightarrow> string" where
  "error_string e =
     (if error_message e = [] then error_name e else error_name e @ '': '' @ error_message e)"

text \<open>The catch clause of part_000 (line 141): \<open>String(e?.message || e)\<close>.\<close>

definition unexpected :: "js_error \<Rightarrow> jsval" where
  "unexpected e =
     JObj [(''error'', JStr ''Unexpected error''),
           (''detail'', JStr (if error_message e \<noteq> [] then error_message e else error_string e))]"

text \<open>The catch clause of figma-enrich.js (line 72): \<open>String(e)\<close>.\<close>

definition enrich_unexpected :: "js_error \<Rightarrow> jsval" where
  "enrich_unexpected e =
     JObj [(''error'', JStr ''Unexpected error''), (''detail'', JStr (error_string e))]"

definition the_str :: "string option \<Rightarrow> string" where
  "the_str x = (case x of None \<Rightarrow> [] | Some s \<Rightarrow> s)"

definition cache_key :: "string \<Rightarrow> string \<Rightarrow> jsnum \<Rightarrow> string" where
  "cache_key fileKey depth limit = fileKey @ ''|d='' @ depth @ ''|l='' @ show_num limit"

subsection \<open>The caching handler (src/unnamed/part_000)\<close>

text \<open>Lines 114-126: the node-detail fetch, with the calls it made.\<close>

definition fetch_nodes ::
  "upstream \<Rightarrow> string \<Rightarrow> string option \<Rightarrow> jsval list \<Rightarrow> (js_error + jsval) \<times> upcall list" where
  "fetch_nodes up fileKey token screens =
     (let ids = map (\<lambda>s. opt_dot s ''id'') screens in
      if join_empty ids then (Inr (JObj []), [])
      else (let nc = GetNodes fileKey ids token in
            case up nc of
              Rejected m \<Rightarrow> (Inl (FetchError m), [nc])
            | Fetched r \<Rightarrow>
                (let nodesRes = fetchJson r in
                 if f_status nodesRes = 429 then (Inr (JObj []), [nc])
                 else if f_ok nodesRes \<and> truthy (f_json nodesRes)
                 then (Inr (js_or (opt_dot (f_json nodesRes) ''nodes'') (JObj [])), [nc])
                 else (Inr (JObj []), [nc]))))"

definition mk_payload :: "string \<Rightarrow> jsval \<Rightarrow> jsval list \<Rightarrow> jsval \<Rightarrow> jsval" where
  "mk_payload fileKey fileJson screens nodes =
     JObj [(''file_key'', JStr fileKey),
           (''file_name'', js_or (opt_dot fileJson ''name'') (JStr [])),
           (''last_modified'', js_or (opt_dot fileJson ''lastModified'') (JStr [])),
           (''screens'', JArr screens),
           (''nodes'', nodes)]"

text \<open>Lines 85-139: what follows a cache miss.\<close>

definition on_miss ::
  "upstream \<Rightarrow> clock \<Rightarrow> cache \<Rightarrow> string \<Rightarrow> string \<Rightarrow> string \<Rightarrow> jsnum \<Rightarrow> string option \<Rightarrow> outcome" where
  "on_miss up clk c ckey fileKey depth limit token =
     (let fc = GetFile fileKey depth token in
      case up fc of
        Rejected m \<Rightarrow> reply 500 (unexpected (FetchError m)) c [fc]
      | Fetched r \<Rightarrow>
          (let fileRes = fetchJson r in
           if f_status fileRes = 429 then
             (case scan_fallback (t_scan clk) fileKey c of
                Some v \<Rightarrow> reply 200 (spread_with v ''_cache'' (JStr ''fallback_on_429'')) c [fc]
              | None \<Rightarrow>
                  reply 429
                    (err_body ''Figma rate limited (429) and no cache available yet. Retry in a few minutes.'')
                    c [fc])
           else if \<not> f_ok fileRes \<or> \<not> truthy (f_json fileRes) then
             reply (if f_status fileRes \<noteq> 0 then f_status fileRes else 502)
               (JObj [(''error'', JStr ''Figma file fetch failed''),
                      (''figma_status'', JNum (int (f_status fileRes))),
                      (''figma_body'', js_or (f_json fileRes) (js_or (JStr (f_text fileRes)) Null))])
               c [fc]
           else
             (let fileJson = f_json fileRes in
              case pickTopScreens fileJson limit of
                Inl err \<Rightarrow> reply 500 (unexpected err) c [fc]
              | Inr screens \<Rightarrow>
                  (case fetch_nodes up fileKey token screens of
                     (Inl err, ncs) \<Rightarrow> reply 500 (unexpected err) c (fc # ncs)
                   | (Inr nodes, ncs) \<Rightarrow>
                       (let payload = mk_payload fileKey fileJson screens nodes
                        in reply 200 (spread_with payload ''_cache'' (JStr ''miss_set''))
                             (setCache (t_set clk) c ckey payload) (fc # ncs))))))"

text \<open>Line 64: the limit of a request.\<close>

definition limit_of :: "string option \<Rightarrow> jsnum" where
  "limit_of q = js_min (js_max (parseInt10 (or_default q ''10'')) (Num 1)) (Num 25)"

text \<open>The handler (lines 51-143).\<close>

definition handler :: "env \<Rightarrow> upstream \<Rightarrow> clock \<Rightarrow> cache \<Rightarrow> request \<Rightarrow> outcome" where
  "handler e up clk c req =
     (if req_method req \<noteq> ''GET'' then reply 405 (err_body ''Method not allowed'') c []
      else if \<not> truthy_s (RELAY_KEY e) \<or> x_relay_key req \<noteq> RELAY_KEY e
      then reply 401 (err_body ''Unauthorized'') c []
      else
        (let fileKey = q_file_key req;
             depth = or_default (q_depth req) ''1'';
             limit = limit_of (q_limit req)
         in if \<not> truthy_s fileKey then reply 400 (err_body ''Missing file_key'') c []
            else if depth \<notin> set [''1'', ''2'', ''3'']
            then reply 400 (err_body ''depth must be 1,2,3'') c []
            else if \<not> truthy_s (FIGMA_PAT e)
            then reply 500 (err_body ''Server misconfigured: FIGMA_PAT missing'') c []
            else
              (let ckey = cache_key (the_str fileKey) depth limit;
                   (cached, c1) = getCache (t_get clk) c ckey
               in if truthy cached
                  then reply 200 (spread_with cached ''_cache'' (JStr ''hit'')) c1 []
                  else on_miss up clk c1 ckey (the_str fileKey) depth limit (FIGMA_PAT e))))"

subsection \<open>The handler without a cache (src/api/figma-enrich.js)\<close>

text \<open>Line 14: the limit has an upper bound only.\<close>

definition enrich_limit_of :: "string option \<Rightarrow> jsnum" where
  "enrich_limit_of q = js_min (parseInt10 (or_default q ''10'')) (Num 25)"

text \<open>Lines 50-63: \<open>nodesResp.json()\<close> is awaited without a catch of its own.\<close>

definition enrich_fetch_nodes ::
  "upstream \<Rightarrow> string \<Rightarrow> string option \<Rightarrow> jsval list \<Rightarrow> (js_error + jsval) \<times> upcall list" where
  "enrich_fetch_nodes up fileKey token screens =
     (let ids = map (\<lambda>s. opt_dot s ''id'') screens in
      if join_empty ids then (Inr (JObj []), [])
      else (let nc = GetNodes fileKey ids token in
            case up nc of
              Rejected m \<Rightarrow> (Inl (FetchError m), [nc])
            | Fetched r \<Rightarrow>
                if resp_ok r then
                  (case up_json r of
                     None \<Rightarrow> (Inl (SyntaxError ''Unexpected token''), [nc])
                   | Some nodesJson \<Rightarrow>
                       (case dot nodesJson ''nodes'' of
                          Inl e \<Rightarrow> (Inl e, [nc])
                        | Inr n \<Rightarrow> (Inr (js_or n (JObj [])), [nc])))
                else (Inr (JObj []), [nc])))"

definition enrich_handler :: "env \<Rightarrow> upstream \<Rightarrow> request \<Rightarrow> outcome" where
  "enrich_handler e up req =
     (if req_method req \<noteq> ''GET'' then reply 405 (err_body ''Method not allowed'') [] []
      else if x_relay_key req \<noteq> RELAY_KEY e then reply 401 (err_body ''Unauthorized'') [] []
      else
        (let fileKey = q_file_key req;
             depth = or_default (q_depth req) ''1'';
             limit = enrich_limit_of (q_limit req)
         in if \<not> truthy_s fileKey then reply 400 (err_body ''Missing file_key'') [] []
            else
              (let fc = GetFile (the_str fileKey) depth (FIGMA_PAT e) in
               case up fc of
                 Rejected m \<Rightarrow> reply 500 (enrich_unexpected (FetchError m)) [] [fc]
               | Fetched r \<Rightarrow>
                   if \<not> resp_ok r then reply (up_status r) (err_body ''Figma file fetch failed'') [] [fc]
                   else
                     (case up_json r of
                        None \<Rightarrow> reply 500 (enrich_unexpected (SyntaxError ''Unexpected token'')) [] [fc]
                      | Some fileJson \<Rightarrow>
                          (case enrich_screens fileJson limit of
                             Inl err \<Rightarrow> reply 500 (enrich_unexpected err) [] [fc]
                           | Inr screens \<Rightarrow>
                               (case enrich_fetch_nodes up (the_str fileKey) (FIGMA_PAT e) screens of
                                  (Inl err, ncs) \<Rightarrow> reply 500 (enrich_unexpected err) [] (fc # ncs)
                                | (Inr nodes, ncs) \<Rightarrow>
                                    reply 200
                                      (JObj [(''file_key'', JStr (the_str fileKey)),
                                             (''file_name'', opt_dot fileJson ''name''),
                                             (''screens'', JArr screens),
                                             (''nodes'', nodes)])
                                      [] (fc # ncs)))))))"

section \<open>Notions used to state the properties\<close>

text \<open>
  A request that passes every check made before the cache is consulted (method,
  relay key, file key, depth, upstream token), and the cache key it is looked up
  under.
\<close>

definition passes_checks :: "env \<Rightarrow> request \<Rightarrow> bool" where
  "passes_checks e req =
     (req_method req = ''GET'' \<and> truthy_s (RELAY_KEY e) \<and> x_relay_key req = RELAY_KEY e \<and>
      truthy_s (q_file_key req) \<and> or_default (q_depth req) ''1'' \<in> set [''1'', ''2'', ''3''] \<and>
      truthy_s (FIGMA_PAT e))"

definition request_key :: "request \<Rightarrow> string" where
  "request_key req =
     cache_key (the_str (q_file_key req)) (or_default (q_depth req) ''1'') (limit_of (q_limit req))"

text \<open>The file-metadata call a request leads to.\<close>

definition file_call :: "env \<Rightarrow> request \<Rightarrow> upcall" where
  "file_call e req = GetFile (the_str (q_file_key req)) (or_default (q_depth req) ''1'') (FIGMA_PAT e)"

text \<open>Which upstream calls are file-metadata calls.\<close>

fun is_file_call :: "upcall \<Rightarrow> bool" where
  "is_file_call (GetFile k d t) = True"
| "is_file_call (GetNodes k ids t) = False"

text \<open>
  An entry the rate-limit fallback accepts: its key begins with the requested file
  key followed by a bar, and its age is within the TTL.
\<close>

definition fallback_match :: "int \<Rightarrow> string \<Rightarrow> string \<times> entry \<Rightarrow> bool" where
  "fallback_match now fileKey kv =
     (starts_with (fst kv) (fileKey @ ''|'') \<and> now - ent_ts (snd kv) \<le> TTL_MS)"

text \<open>The body of the 429 response (lines 97-99).\<close>

definition rate_limited_body :: jsval where
  "rate_limited_body = err_body ''Figma rate limited (429) and no cache available yet. Retry in a few minutes.''"

text \<open>The number of bars in a string.\<close>

definition bars :: "string \<Rightarrow> nat" where
  "bars s = length (filter (\<lambda>ch. ch = CHR ''|'') s)"

subsection \<open>Screen selection as the specification words it\<close>

text \<open>
  The specification's selector: of the direct children of the document root keep the
  canvases; of the direct children of each canvas keep the frames and sections; collect
  their \<open>{id, name}\<close> pairs in tree order; keep the first \<open>limit\<close> of them.
  \<open>children_of\<close> reads a child list as the loops do (a missing or falsy one is empty).
\<close>

definition is_canvas :: "jsval \<Rightarrow> bool" where
  "is_canvas page = (opt_dot page ''type'' = JStr ''CANVAS'')"

definition qualifies :: "jsval \<Rightarrow> bool" where
  "qualifies node = is_screen_type (opt_dot node ''type'')"

definition has_child_list :: "jsval \<Rightarrow> bool" where
  "has_child_list v =
     (case iterate (js_or (opt_dot v ''children'') (JArr [])) of Inl e \<Rightarrow> False | Inr xs \<Rightarrow> True)"

definition children_of :: "jsval \<Rightarrow> jsval list" where
  "children_of v =
     (case iterate (js_or (opt_dot v ''children'') (JArr [])) of Inl e \<Rightarrow> [] | Inr xs \<Rightarrow> xs)"

definition screens_of_canvas :: "jsval \<Rightarrow> jsval list" where
  "screens_of_canvas page = map mk_screen (filter qualifies (children_of page))"

definition select_screens :: "jsval \<Rightarrow> nat \<Rightarrow> jsval list" where
  "select_screens fileJson limit =
     take limit
       (concat (map screens_of_canvas (filter is_canvas (children_of (opt_dot fileJson ''document'')))))"

text \<open>
  A document tree: the child lists the selector walks (the root's, and each canvas's)
  are arrays, or missing. For the loops of figma-enrich.js, which read \<open>.type\<close> without
  a guard, the file, its document, its pages and the children of its canvases must
  moreover not be \<open>null\<close>.
\<close>

definition tree_shaped :: "jsval \<Rightarrow> bool" where
  "tree_shaped fileJson =
     (has_child_list (opt_dot fileJson ''document'') \<and>
      list_all has_child_list (filter is_canvas (children_of (opt_dot fileJson ''document''))))"

definition is_defined :: "jsval \<Rightarrow> bool" where
  "is_defined v = (v \<noteq> Undefined \<and> v \<noteq> Null)"

definition no_null_nodes :: "jsval \<Rightarrow> bool" where
  "no_null_nodes fileJson =
     (is_defined fileJson \<and> is_defined (opt_dot fileJson ''document'') \<and>
      list_all is_defined (children_of (opt_dot fileJson ''document'')) \<and>
      list_all (\<lambda>page. list_all is_defined (children_of page))
        (filter is_canvas (children_of (opt_dot fileJson ''document''))))"

subsection \<open>The shape of a successful response\<close>

text \<open>
  \<open>res.json\<close> leaves out the properties whose value is \<open>undefined\<close>; \<open>wire_keys\<close>
  are the property names that reach the caller. A payload has the five fields the
  handler of part_000 builds (lines 128-134), none of them \<open>undefined\<close>.
\<close>

definition wire_keys :: "jsval \<Rightarrow> string list" where
  "wire_keys b = map fst (filter (\<lambda>p. snd p \<noteq> Undefined) (own_props b))"

definition payload_keys :: "string list" where
  "payload_keys = [''file_key'', ''file_name'', ''last_modified'', ''screens'', ''nodes'']"

definition is_payload :: "jsval \<Rightarrow> bool" where
  "is_payload v =
     (case v of
        JObj ps \<Rightarrow> map fst ps = payload_keys \<and> list_all (\<lambda>p. snd p \<noteq> Undefined) ps
      | _ \<Rightarrow> False)"

definition cache_holds_payloads :: "cache \<Rightarrow> bool" where
  "cache_holds_payloads c = list_all (\<lambda>kv. is_payload (ent_value (snd kv))) c"

definition markers :: "jsval list" where
  "markers = [JStr ''hit'', JStr ''fallback_on_429'', JStr ''miss_set'']"

subsection \<open>Example inputs\<close>

text \<open>
  A configured server, a valid request for four screens of file \<open>abc\<close>, and a file
  with two canvases: the first holds three frames and a text node, the second two
  sections. The example upstream serves that file and one node detail.
\<close>

definition ex_env :: env where
  "ex_env = \<lparr>RELAY_KEY = Some ''s3cret'', FIGMA_PAT = Some ''pat''\<rparr>"

definition ex_req :: request where
  "ex_req = \<lparr>req_method = ''GET'', x_relay_key = Some ''s3cret'', q_file_key = Some ''abc'',
              q_depth = None, q_limit = Some ''4''\<rparr>"

definition ex_node :: "string \<Rightarrow> string \<Rightarrow> jsval" where
  "ex_node ty i = JObj [(''id'', JStr i), (''name'', JStr (''n'' @ i)), (''type'', JStr ty)]"

definition ex_doc :: jsval where
  "ex_doc =
     JObj [(''name'', JStr ''File''), (''lastModified'', JStr ''2024-01-01''),
           (''document'',
            JObj [(''children'',
                   JArr [JObj [(''type'', JStr ''CANVAS''),
                               (''children'', JArr [ex_node ''FRAME'' ''1:1'', ex_node ''TEXT'' ''1:2'',
                                                     ex_node ''FRAME'' ''1:3'', ex_node ''FRAME'' ''1:4''])],
                         JObj [(''type'', JStr ''CANVAS''),
                               (''children'', JArr [ex_node ''SECTION'' ''2:1'', ex_node ''SECTION'' ''2:2''])]])])]"

definition ex_json_resp :: "nat \<Rightarrow> jsval \<Rightarrow> fetch_result" where
  "ex_json_resp st j =
     Fetched \<lparr>up_status = st, up_ctype = Some ''application/json'', up_json = Some j, up_text = None\<rparr>"

fun ex_up :: upstream where
  "ex_up (GetFile k d t) = ex_json_resp 200 ex_doc"
| "ex_up (GetNodes k ids t) = ex_json_resp 200 (JObj [(''nodes'', JObj [(''1:1'', JObj [])])])"

definition ex_cache :: cache where
  "ex_cache = [(''abc|d=1|l=4'', \<lparr>ent_ts = 1000, ent_value = JObj [(''file_key'', JStr ''abc'')]\<rparr>)]"

definition ex_late :: clock where
  "ex_late = \<lparr>t_get = 601001, t_scan = 601002, t_set = 601003\<rparr>"

text \<open>The clock of a first request, and the payload it builds from the example file.\<close>

definition ex_early :: clock where
  "ex_early = \<lparr>t_get = 1000, t_scan = 1000, t_set = 1001\<rparr>"

definition ex_payload :: jsval where
  "ex_payload =
     JObj [(''file_key'', JStr ''abc''), (''file_name'', JStr ''File''),
           (''last_modified'', JStr ''2024-01-01''),
           (''screens'', JArr [JObj [(''id'', JStr ''1:1''), (''name'', JStr ''n1:1'')],
                               JObj [(''id'', JStr ''1:3''), (''name'', JStr ''n1:3'')],
                               JObj [(''id'', JStr ''1:4''), (''name'', JStr ''n1:4'')],
                               JObj [(''id'', JStr ''2:1''), (''name'', JStr ''n2:1'')]]),
           (''nodes'', JObj [(''1:1'', JObj [])])]"

text \<open>
  An upstream that answers every call with 429; the example request under another
  depth and limit; the cache the first example request leaves; a request for the
  file key \<open>abc|x\<close>; the clock of a request made a second later.
\<close>

definition ex_429 :: upstream where
  "ex_429 call = Fetched \<lparr>up_status = 429, up_ctype = Some ''text/plain'', up_json = None, up_text = Some ''slow down''\<rparr>"

definition ex_other_req :: request where
  "ex_other_req = ex_req\<lparr>q_depth := Some ''2'', q_limit := Some ''7''\<rparr>"

definition ex_warm :: cache where
  "ex_warm = [(''abc|d=1|l=4'', \<lparr>ent_ts = 1001, ent_value = ex_payload\<rparr>)]"

definition ex_bar_req :: request where
  "ex_bar_req = ex_req\<lparr>q_file_key := Some ''abc|x''\<rparr>"

definition ex_soon :: clock where
  "ex_soon = \<lparr>t_get = 2000, t_scan = 2001, t_set = 2002\<rparr>"

text \<open>A selected screen of the example file, and a file without a canvas.\<close>

definition ex_screen :: "string \<Rightarrow> jsval" where
  "ex_screen i = JObj [(''id'', JStr i), (''name'', JStr (''n'' @ i))]"

definition ex_no_canvas :: jsval where
  "ex_no_canvas = JObj [(''document'', JObj [(''children'', JArr [ex_node ''FRAME'' ''9:9''])])]"

text \<open>An upstream that answers 200 with a page of HTML.\<close>

definition ex_html :: upstream where
  "ex_html call = Fetched \<lparr>up_status = 200, up_ctype = Some ''text/html'', up_json = None, up_text = Some ''<html>''\<rparr>"

text \<open>
  The example request with an empty depth parameter, and with depth 9; a server
  without a relay secret and a request without the relay header; a file whose only
  canvas holds 26 frames; a file whose first canvas holds no screen and whose second
  holds one; an upstream whose node-detail answer is a 200 with a body that does not
  parse.
\<close>

definition ex_blank_depth :: request where
  "ex_blank_depth = ex_req\<lparr>q_depth := Some []\<rparr>"

definition ex_deep_req :: request where
  "ex_deep_req = ex_req\<lparr>q_depth := Some ''9''\<rparr>"

definition ex_open_env :: env where
  "ex_open_env = \<lparr>RELAY_KEY = None, FIGMA_PAT = Some ''pat''\<rparr>"

definition ex_anon_req :: request where
  "ex_anon_req = ex_req\<lparr>x_relay_key := None\<rparr>"

definition ex_wide :: jsval where
  "ex_wide =
     JObj [(''document'',
            JObj [(''children'',
                   JArr [JObj [(''type'', JStr ''CANVAS''),
                               (''children'', JArr (replicate 26 (ex_node ''FRAME'' ''7:7'')))]])])]"

definition ex_second_canvas :: jsval where
  "ex_second_canvas =
     JObj [(''document'',
            JObj [(''children'',
                   JArr [JObj [(''type'', JStr ''CANVAS''), (''children'', JArr [ex_node ''TEXT'' ''1:1''])],
                         JObj [(''type'', JStr ''CANVAS''), (''children'', JArr [ex_node ''FRAME'' ''2:1''])]])])]"

fun ex_bad_nodes :: upstream where
  "ex_bad_nodes (GetFile k d t) = ex_json_resp 200 ex_doc"
| "ex_bad_nodes (GetNodes k ids t) =
     Fetched \<lparr>up_status = 200, up_ctype = Some ''application/json'', up_json = None, up_text = None\<rparr>"

section \<open>Properties\<close>

subsection \<open>The handler after its checks\<close>

text \<open>
  A request that passes the checks is answered from the cache or by \<open>on_miss\<close>, and
  \<open>on_miss\<close> always starts with the file-metadata call.
\<close>

lemma handler_passes:
  assumes "passes_checks e req"
  shows "handler e up clk c req =
           (if truthy (fst (getCache (t_get clk) c (request_key req)))
            then reply 200
                   (spread_with (fst (getCache (t_get clk) c (request_key req))) ''_cache'' (JStr ''hit''))
                   (snd (getCache (t_get clk) c (request_key req))) []
            else on_miss up clk (snd (getCache (t_get clk) c (request_key req))) (request_key req)
                   (the_str (q_file_key req)) (or_default (q_depth req) ''1'')
                   (limit_of (q_limit req)) (FIGMA_PAT e))"
  using assms
  by (simp add: handler_def passes_checks_def request_key_def Let_def split_beta)

lemma on_miss_calls:
  "\<exists>ncs. out_calls (on_miss up clk c ckey fileKey depth limit token) = GetFile fileKey depth token # ncs"
  by (simp add: on_miss_def reply_def Let_def split: fetch_result.splits option.splits sum.splits prod.splits)

lemmas model_defs =
  handler_def on_miss_def fetch_nodes_def fetchJson_def resp_ok_def pickTopScreens_def
  mk_payload_def mk_screen_def is_screen_type_def js_or_def limit_of_def parseInt10_def
  strip_sign_def is_ws_def is_digit_def digit_val_def digit_char_def show_nat.simps show_int_def
  cache_key_def
  getCache_def setCache_def map_delete_def TTL_MS_def spread_with_def reply_def the_str_def
  err_body_def unexpected_def error_string_def Let_def

lemmas ex_defs =
  ex_env_def ex_req_def ex_node_def ex_doc_def ex_json_resp_def ex_cache_def ex_late_def

text \<open>Maps, object spread, and the marker of a response body.\<close>

lemma map_of_map_set: "map_of (map_set k v m) k = Some v"
  by (induction m) auto

lemma map_delete_map_set: "map_delete k (map_set k v m) = map_delete k m"
  by (induction m) (auto simp: map_delete_def)

lemma opt_dot_spread: "opt_dot (spread_with v f x) f = x"
  by (simp add: spread_with_def map_of_map_set)

lemma payload_of_spread:
  "map_delete f (own_props (spread_with v f x)) = map_delete f (own_props v)"
  by (simp add: spread_with_def map_delete_map_set)

lemma opt_dot_err_body: "opt_dot (err_body m) ''_cache'' = Undefined"
  by (simp add: err_body_def)

lemma opt_dot_unexpected: "opt_dot (unexpected e) ''_cache'' = Undefined"
  by (simp add: unexpected_def)

text \<open>
  A response marked \<open>miss_set\<close> comes from the last branch of \<open>on_miss\<close>: the payload
  was built, stored under the request's key, and one file-metadata call was made.
\<close>

lemma fetch_nodes_calls: "filter is_file_call (snd (fetch_nodes up fileKey token screens)) = []"
  by (simp add: fetch_nodes_def Let_def split: fetch_result.splits)

lemma on_miss_miss_set:
  assumes "opt_dot (out_body (on_miss up clk c ckey fileKey depth limit token)) ''_cache'' = JStr ''miss_set''"
  shows "\<exists>fileJson screens nodes ncs.
           on_miss up clk c ckey fileKey depth limit token =
             reply 200 (spread_with (mk_payload fileKey fileJson screens nodes) ''_cache'' (JStr ''miss_set''))
               (setCache (t_set clk) c ckey (mk_payload fileKey fileJson screens nodes))
               (GetFile fileKey depth token # ncs) \<and>
           filter is_file_call ncs = []"
proof (cases "up (GetFile fileKey depth token)")
  case (Rejected m)
  with assms show ?thesis
    by (simp add: on_miss_def reply_def opt_dot_unexpected Let_def)
next
  case (Fetched r)
  show ?thesis
  proof (cases "f_status (fetchJson r) = 429")
    case True
    with assms Fetched show ?thesis
      by (simp add: on_miss_def reply_def opt_dot_spread opt_dot_err_body Let_def split: option.splits)
  next
    case not429: False
    show ?thesis
    proof (cases "\<not> f_ok (fetchJson r) \<or> \<not> truthy (f_json (fetchJson r))")
      case True
      with assms Fetched not429 show ?thesis
        by (auto simp add: on_miss_def reply_def Let_def)
    next
      case ok: False
      show ?thesis
      proof (cases "pickTopScreens (f_json (fetchJson r)) limit")
        case (Inl err)
        with assms Fetched not429 ok show ?thesis
          by (simp add: on_miss_def reply_def opt_dot_unexpected Let_def)
      next
        case (Inr screens)
        obtain res ncs where fn: "fetch_nodes up fileKey token screens = (res, ncs)"
          by (cases "fetch_nodes up fileKey token screens")
        have nf: "filter is_file_call ncs = []"
          using fetch_nodes_calls [of up fileKey token screens] fn by simp
        show ?thesis
        proof (cases res)
          case (Inl err)
          with assms Fetched not429 ok Inr fn show ?thesis
            by (simp add: on_miss_def reply_def opt_dot_unexpected Let_def)
        next
          case nodes: (Inr nodes)
          with Fetched not429 ok Inr fn nf show ?thesis
            by (auto simp add: on_miss_def Let_def)
        qed
      qed
    qed
  qed
qed

lemma handler_miss_set:
  assumes "passes_checks e req"
    and "opt_dot (out_body (handler e up clk c req)) ''_cache'' = JStr ''miss_set''"
  shows "\<exists>fileJson screens nodes ncs.
           handler e up clk c req =
             reply 200
               (spread_with (mk_payload (the_str (q_file_key req)) fileJson screens nodes) ''_cache'' (JStr ''miss_set''))
               (setCache (t_set clk) (snd (getCache (t_get clk) c (request_key req))) (request_key req)
                  (mk_payload (the_str (q_file_key req)) fileJson screens nodes))
               (file_call e req # ncs) \<and>
           filter is_file_call ncs = []"
proof (cases "truthy (fst (getCache (t_get clk) c (request_key req)))")
  case True
  with assms show ?thesis
    by (simp add: handler_passes reply_def opt_dot_spread)
next
  case False
  with assms show ?thesis
    using on_miss_miss_set [of up clk "snd (getCache (t_get clk) c (request_key req))" "request_key req"
        "the_str (q_file_key req)" "or_default (q_depth req) ''1''" "limit_of (q_limit req)" "FIGMA_PAT e"]
    by (simp add: handler_passes file_call_def)
qed

text \<open>The example request, evaluated.\<close>

lemma ex_passes: "passes_checks ex_env ex_req"
  by (simp add: passes_checks_def ex_defs)

lemma ex_first:
  "handler ex_env ex_up ex_early [] ex_req =
     reply 200 (spread_with ex_payload ''_cache'' (JStr ''miss_set''))
       [(''abc|d=1|l=4'', \<lparr>ent_ts = 1001, ent_value = ex_payload\<rparr>)]
       [GetFile ''abc'' ''1'' (Some ''pat''),
        GetNodes ''abc'' [JStr ''1:1'', JStr ''1:3'', JStr ''1:4'', JStr ''2:1''] (Some ''pat'')]"
  by (simp add: ex_defs ex_early_def ex_payload_def model_defs)

text \<open>The fallback scan returns the first matching entry; a 429 leads to it.\<close>

lemma scan_fallback_find:
  "scan_fallback now fileKey c = map_option (\<lambda>kv. ent_value (snd kv)) (find (fallback_match now fileKey) c)"
  by (induction c) (auto simp: fallback_match_def)

lemma getCache_subset: "set (snd (getCache now c key)) \<subseteq> set c"
  by (auto simp: getCache_def map_delete_def split: option.splits)

lemma fetchJson_status: "f_status (fetchJson r) = up_status r"
  by (simp add: fetchJson_def Let_def)

lemma on_miss_429:
  assumes "up (GetFile fileKey depth token) = Fetched r" and "up_status r = 429"
  shows "on_miss up clk c ckey fileKey depth limit token =
           (case scan_fallback (t_scan clk) fileKey c of
              Some v \<Rightarrow> reply 200 (spread_with v ''_cache'' (JStr ''fallback_on_429'')) c [GetFile fileKey depth token]
            | None \<Rightarrow> reply 429 rate_limited_body c [GetFile fileKey depth token])"
  using assms
  by (simp add: on_miss_def fetchJson_status rate_limited_body_def Let_def split: option.splits)

text \<open>
  A cache key holds two bars more than its file key (depths and limits hold none), so
  the keys of \<open>F\<close> and of \<open>F|s\<close> never coincide.
\<close>

lemma starts_with_append: "starts_with (p @ rest) p"
  by (induction p) auto

lemma bars_append: "bars (a @ b) = bars a + bars b"
  by (simp add: bars_def)

lemma digit_char_no_bar: "d < 10 \<Longrightarrow> digit_char d \<noteq> CHR ''|''"
proof -
  assume "d < 10"
  then have "d \<in> {0, 1, 2, 3, 4, 5, 6, 7, 8, 9}"
    by auto
  then show ?thesis
    by (auto simp: digit_char_def)
qed

lemma bars_show_nat: "bars (show_nat n) = 0"
proof (induction n rule: show_nat.induct)
  case (1 n)
  show ?case
  proof (cases "n < 10")
    case True
    then show ?thesis
      using digit_char_no_bar [of n] by (simp add: show_nat.simps [of n] bars_def)
  next
    case False
    have "bars (show_nat n) = bars (show_nat (n div 10)) + bars [digit_char (n mod 10)]"
      using False by (simp add: show_nat.simps [of n] bars_append)
    moreover have "bars [digit_char (n mod 10)] = 0"
      using digit_char_no_bar [of "n mod 10"] by (simp add: bars_def)
    ultimately show ?thesis
      using 1 False by simp
  qed
qed

lemma bars_show_num: "bars (show_num l) = 0"
proof (cases l)
  case NaN
  then show ?thesis by (simp add: bars_def)
next
  case (Num i)
  then show ?thesis
    using bars_show_nat [of "nat i"] bars_show_nat [of "nat (- i)"]
    by (simp add: show_int_def bars_def)
qed

lemma bars_depth: "d \<in> set [''1'', ''2'', ''3''] \<Longrightarrow> bars d = 0"
  by (auto simp: bars_def)

lemma bars_cache_key:
  "d \<in> set [''1'', ''2'', ''3''] \<Longrightarrow> bars (cache_key k d l) = bars k + 2"
proof -
  assume d: "d \<in> set [''1'', ''2'', ''3'']"
  have "bars ''|d='' = 1" "bars ''|l='' = 1"
    by (simp_all add: bars_def)
  then show ?thesis
    using bars_depth [OF d] bars_show_num [of l]
    by (simp only: cache_key_def bars_append)
qed

lemma cross_keys_differ:
  assumes "d1 \<in> set [''1'', ''2'', ''3'']" and "d2 \<in> set [''1'', ''2'', ''3'']"
  shows "cache_key F d2 l2 \<noteq> cache_key (F @ ''|'' @ s) d1 l1"
proof
  assume "cache_key F d2 l2 = cache_key (F @ ''|'' @ s) d1 l1"
  then have "bars (cache_key F d2 l2) = bars (cache_key (F @ ''|'' @ s) d1 l1)"
    by simp
  moreover have "bars ''|'' = 1"
    by (simp add: bars_def)
  ultimately show False
    by (simp only: bars_cache_key [OF assms(1)] bars_cache_key [OF assms(2)] bars_append)
qed

text \<open>The other example requests pass the checks.\<close>

lemma ex_other_passes: "passes_checks ex_env ex_other_req"
  by (simp add: passes_checks_def ex_defs ex_other_req_def)

lemma ex_other_key: "request_key ex_other_req = ''abc|d=2|l=7''"
  by (simp add: request_key_def ex_other_req_def ex_defs model_defs)

lemma ex_bar_passes: "passes_checks ex_env ex_bar_req"
  by (simp add: passes_checks_def ex_defs ex_bar_req_def)

lemma ex_bar_marker:
  "opt_dot (out_body (handler ex_env ex_up ex_early [] ex_bar_req)) ''_cache'' = JStr ''miss_set''"
  by (simp add: ex_defs ex_bar_req_def ex_early_def model_defs)

subsection \<open>The cache lookup and its time-to-live\<close>

text \<open>
  Claim C7. The time-to-live is ten minutes (600000 ms). \<open>getCache\<close> returns the
  stored payload when the map holds an entry for exactly that key whose age, the
  reading of the clock minus the stored timestamp, is at most the TTL; in every other
  case it returns \<open>null\<close>. So a request that passes the checks and finds only an
  entry older than the TTL under its key makes a fresh file-metadata call upstream.
\<close>

theorem getCache_within_ttl:
  "TTL_MS = 600000 \<and>
   (\<forall>item. map_of c key = Some item \<and> now - ent_ts item \<le> TTL_MS \<longrightarrow>
      fst (getCache now c key) = ent_value item) \<and>
   ((\<nexists>item. map_of c key = Some item \<and> now - ent_ts item \<le> TTL_MS) \<longrightarrow>
      fst (getCache now c key) = Null) \<and>
   (\<forall>item. passes_checks e req \<and> map_of c (request_key req) = Some item \<and>
      t_get clk - ent_ts item > TTL_MS \<longrightarrow>
      (\<exists>ncs. out_calls (handler e up clk c req) = file_call e req # ncs))"
proof -
  have ttl: "TTL_MS = 600000"
    by (simp add: TTL_MS_def)
  have fresh: "fst (getCache now c key) = ent_value item"
    if "map_of c key = Some item" "now - ent_ts item \<le> TTL_MS" for item
    using that by (simp add: getCache_def)
  have stale: "fst (getCache now c key) = Null"
    if "\<nexists>item. map_of c key = Some item \<and> now - ent_ts item \<le> TTL_MS"
    using that by (cases "map_of c key") (auto simp: getCache_def)
  have refetch: "\<exists>ncs. out_calls (handler e up clk c req) = file_call e req # ncs"
    if "passes_checks e req" "map_of c (request_key req) = Some item"
       "t_get clk - ent_ts item > TTL_MS" for item
  proof -
    have "fst (getCache (t_get clk) c (request_key req)) = Null"
      using that by (simp add: getCache_def)
    then show ?thesis
      using on_miss_calls that(1) by (simp add: handler_passes file_call_def)
  qed
  from ttl fresh stale refetch show ?thesis
    by blast
qed

theorem getCache_within_ttl_witness:
  "map_of ex_cache ''abc|d=1|l=4'' = Some \<lparr>ent_ts = 1000, ent_value = JObj [(''file_key'', JStr ''abc'')]\<rparr> \<and>
   fst (getCache 601000 ex_cache ''abc|d=1|l=4'') = JObj [(''file_key'', JStr ''abc'')] \<and>
   fst (getCache 601001 ex_cache ''abc|d=1|l=4'') = Null \<and>
   passes_checks ex_env ex_req \<and> request_key ex_req = ''abc|d=1|l=4'' \<and>
   (\<exists>ncs. out_calls (handler ex_env ex_up ex_late ex_cache ex_req) = file_call ex_env ex_req # ncs)"
proof -
  let ?item = "\<lparr>ent_ts = 1000, ent_value = JObj [(''file_key'', JStr ''abc'')]\<rparr>"
  have m: "map_of ex_cache ''abc|d=1|l=4'' = Some ?item"
    by (simp add: ex_cache_def)
  have k: "request_key ex_req = ''abc|d=1|l=4''"
    by (simp add: request_key_def ex_defs model_defs)
  have p: "passes_checks ex_env ex_req"
    by (simp add: passes_checks_def ex_defs)
  have a: "(601000::int) - ent_ts ?item \<le> TTL_MS" and b: "t_get ex_late - ent_ts ?item > TTL_MS"
    by (simp_all add: TTL_MS_def ex_late_def)
  have g: "t_get ex_late = 601001"
    by (simp add: ex_late_def)
  note t1 = getCache_within_ttl [of ex_cache "''abc|d=1|l=4''" 601000 ex_env ex_req ex_late ex_up]
  note t2 = getCache_within_ttl [of ex_cache "''abc|d=1|l=4''" 601001 ex_env ex_req ex_late ex_up]
  have 1: "fst (getCache 601000 ex_cache ''abc|d=1|l=4'') = JObj [(''file_key'', JStr ''abc'')]"
    using t1 m a by auto
  have 2: "fst (getCache 601001 ex_cache ''abc|d=1|l=4'') = Null"
    using t2 m b g by auto
  have 3: "\<exists>ncs. out_calls (handler ex_env ex_up ex_late ex_cache ex_req) = file_call ex_env ex_req # ncs"
    using t2 m b p k by auto
  from m 1 2 p k 3 show ?thesis by blast
qed

subsection \<open>Two identical requests within the TTL\<close>

text \<open>
  Claim C6. Take a request that passes the checks and whose response carries the
  marker \<open>miss_set\<close> (it missed the cache, fetched and stored its payload), and the
  same request again, against the cache the first one left, looked up within the TTL
  of the store. The first responds 200 with the payload and \<open>miss_set\<close>; the cache
  then holds that payload under the request's key, \<open>getCache\<close> returns it unchanged,
  and the second responds 200 with the same payload and \<open>hit\<close>: the two bodies agree
  on every property but \<open>_cache\<close>. The second makes no upstream call, so the two
  requests together make exactly one file-metadata call.
\<close>

theorem cache_idempotence:
  assumes "passes_checks e req"
    and "opt_dot (out_body (handler e up clk1 c req)) ''_cache'' = JStr ''miss_set''"
    and "t_get clk2 - t_set clk1 \<le> TTL_MS"
  shows "let r1 = handler e up clk1 c req; r2 = handler e up clk2 (out_cache r1) req in
         \<exists>payload.
           out_status r1 = 200 \<and> out_body r1 = spread_with payload ''_cache'' (JStr ''miss_set'') \<and>
           map_of (out_cache r1) (request_key req) = Some \<lparr>ent_ts = t_set clk1, ent_value = payload\<rparr> \<and>
           fst (getCache (t_get clk2) (out_cache r1) (request_key req)) = payload \<and>
           out_status r2 = 200 \<and> out_body r2 = spread_with payload ''_cache'' (JStr ''hit'') \<and>
           map_delete ''_cache'' (own_props (out_body r1)) = map_delete ''_cache'' (own_props (out_body r2)) \<and>
           out_calls r2 = [] \<and>
           length (filter is_file_call (out_calls r1 @ out_calls r2)) = 1"
proof -
  define r1 where "r1 = handler e up clk1 c req"
  define r2 where "r2 = handler e up clk2 (out_cache r1) req"
  obtain fileJson screens nodes ncs where
    r1: "r1 = reply 200
              (spread_with (mk_payload (the_str (q_file_key req)) fileJson screens nodes) ''_cache'' (JStr ''miss_set''))
              (setCache (t_set clk1) (snd (getCache (t_get clk1) c (request_key req))) (request_key req)
                 (mk_payload (the_str (q_file_key req)) fileJson screens nodes))
              (file_call e req # ncs)"
    and ncs: "filter is_file_call ncs = []"
    using handler_miss_set [OF assms(1,2)] unfolding r1_def by blast
  define payload where "payload = mk_payload (the_str (q_file_key req)) fileJson screens nodes"
  have stored: "map_of (out_cache r1) (request_key req) = Some \<lparr>ent_ts = t_set clk1, ent_value = payload\<rparr>"
    by (simp add: r1 reply_def setCache_def map_of_map_set payload_def)
  have looked: "getCache (t_get clk2) (out_cache r1) (request_key req) = (payload, out_cache r1)"
    using stored assms(3) by (simp add: getCache_def)
  have truthy: "truthy payload"
    by (simp add: payload_def mk_payload_def)
  have r2: "r2 = reply 200 (spread_with payload ''_cache'' (JStr ''hit'')) (out_cache r1) []"
    unfolding r2_def using looked truthy by (simp add: handler_passes [OF assms(1)])
  have b1: "out_body r1 = spread_with payload ''_cache'' (JStr ''miss_set'')"
    by (simp add: r1 reply_def payload_def)
  have b2: "out_body r2 = spread_with payload ''_cache'' (JStr ''hit'')"
    by (simp add: r2 reply_def)
  have same: "map_delete ''_cache'' (own_props (out_body r1)) = map_delete ''_cache'' (own_props (out_body r2))"
    unfolding b1 b2 by (simp only: payload_of_spread)
  have calls: "length (filter is_file_call (out_calls r1 @ out_calls r2)) = 1"
    using ncs by (simp add: r1 r2 reply_def file_call_def)
  have "out_status r1 = 200" "out_status r2 = 200" "out_calls r2 = []"
    by (simp_all add: r1 r2 reply_def)
  with b1 b2 stored looked same calls show ?thesis
    unfolding Let_def r1_def [symmetric] r2_def [symmetric] by auto
qed

theorem cache_idempotence_witness:
  "passes_checks ex_env ex_req \<and>
   opt_dot (out_body (handler ex_env ex_up ex_early [] ex_req)) ''_cache'' = JStr ''miss_set'' \<and>
   t_get ex_late - t_set ex_early \<le> TTL_MS \<and>
   out_body (handler ex_env ex_up ex_early [] ex_req) = spread_with ex_payload ''_cache'' (JStr ''miss_set'') \<and>
   out_body (handler ex_env ex_up ex_late (out_cache (handler ex_env ex_up ex_early [] ex_req)) ex_req)
     = spread_with ex_payload ''_cache'' (JStr ''hit'') \<and>
   out_calls (handler ex_env ex_up ex_late (out_cache (handler ex_env ex_up ex_early [] ex_req)) ex_req) = []"
proof -
  have m: "opt_dot (out_body (handler ex_env ex_up ex_early [] ex_req)) ''_cache'' = JStr ''miss_set''"
    by (simp add: ex_first reply_def opt_dot_spread)
  have a: "t_get ex_late - t_set ex_early \<le> TTL_MS"
    by (simp add: ex_late_def ex_early_def TTL_MS_def)
  have b: "out_body (handler ex_env ex_up ex_early [] ex_req) = spread_with ex_payload ''_cache'' (JStr ''miss_set'')"
    by (simp add: ex_first reply_def)
  have k: "request_key ex_req = ''abc|d=1|l=4''"
    by (simp add: request_key_def ex_defs model_defs)
  have oc: "out_cache (handler ex_env ex_up ex_early [] ex_req)
              = [(''abc|d=1|l=4'', \<lparr>ent_ts = 1001, ent_value = ex_payload\<rparr>)]"
    by (simp add: ex_first reply_def)
  have inj: "p = ex_payload"
    if "map_of (out_cache (handler ex_env ex_up ex_early [] ex_req)) (request_key ex_req)
          = Some \<lparr>ent_ts = t_set ex_early, ent_value = p\<rparr>" for p
    using that unfolding oc k by simp
  from cache_idempotence [OF ex_passes m a] b inj
  have "out_body (handler ex_env ex_up ex_late (out_cache (handler ex_env ex_up ex_early [] ex_req)) ex_req)
          = spread_with ex_payload ''_cache'' (JStr ''hit'') \<and>
        out_calls (handler ex_env ex_up ex_late (out_cache (handler ex_env ex_up ex_early [] ex_req)) ex_req) = []"
    unfolding Let_def by metis
  with ex_passes m a b show ?thesis
    by blast
qed

subsection \<open>The rate-limit fallback\<close>

text \<open>
  Claim C4. Take a request that passes the checks, misses the cache under its own key
  and whose file-metadata call is answered with status 429. The handler scans the
  cache as the lookup left it. If it holds an entry whose key begins with the
  requested file key followed by a bar and whose age is within the TTL, the response
  is 200 with the payload of the first such entry (whatever depth and limit its key
  names) and the marker \<open>fallback_on_429\<close>. If it holds no such entry, the response
  is 429 with the error body. Either way the cache is left as the lookup left it:
  nothing is stored, and the only upstream call is the file-metadata call.
\<close>

theorem rate_limit_fallback:
  assumes "passes_checks e req"
    and "\<not> truthy (fst (getCache (t_get clk) c (request_key req)))"
    and "up (file_call e req) = Fetched r" and "up_status r = 429"
  shows "let c1 = snd (getCache (t_get clk) c (request_key req));
             out = handler e up clk c req
         in ((\<exists>kv \<in> set c1. fallback_match (t_scan clk) (the_str (q_file_key req)) kv) \<longrightarrow>
               (\<exists>kv. find (fallback_match (t_scan clk) (the_str (q_file_key req))) c1 = Some kv \<and>
                     out_status out = 200 \<and>
                     out_body out = spread_with (ent_value (snd kv)) ''_cache'' (JStr ''fallback_on_429''))) \<and>
            ((\<forall>kv \<in> set c1. \<not> fallback_match (t_scan clk) (the_str (q_file_key req)) kv) \<longrightarrow>
               out_status out = 429 \<and> out_body out = rate_limited_body) \<and>
            out_cache out = c1 \<and> set c1 \<subseteq> set c \<and> out_calls out = [file_call e req]"
proof -
  define c1 where "c1 = snd (getCache (t_get clk) c (request_key req))"
  define fk where "fk = the_str (q_file_key req)"
  define out where "out = handler e up clk c req"
  have out: "out = (case scan_fallback (t_scan clk) fk c1 of
                      Some v \<Rightarrow> reply 200 (spread_with v ''_cache'' (JStr ''fallback_on_429'')) c1 [file_call e req]
                    | None \<Rightarrow> reply 429 rate_limited_body c1 [file_call e req])"
    using assms(2-4) unfolding out_def c1_def fk_def
    by (simp add: handler_passes [OF assms(1)] on_miss_def file_call_def [symmetric] fetchJson_status
        rate_limited_body_def Let_def split: option.splits)
  have some: "\<exists>kv. find (fallback_match (t_scan clk) fk) c1 = Some kv \<and> out_status out = 200 \<and>
                out_body out = spread_with (ent_value (snd kv)) ''_cache'' (JStr ''fallback_on_429'')"
    if "\<exists>kv \<in> set c1. fallback_match (t_scan clk) fk kv"
  proof -
    from that obtain kv where "find (fallback_match (t_scan clk) fk) c1 = Some kv"
      by (cases "find (fallback_match (t_scan clk) fk) c1") (auto simp: find_None_iff)
    then show ?thesis
      by (simp add: out scan_fallback_find reply_def)
  qed
  have none: "out_status out = 429 \<and> out_body out = rate_limited_body"
    if "\<forall>kv \<in> set c1. \<not> fallback_match (t_scan clk) fk kv"
  proof -
    from that have "find (fallback_match (t_scan clk) fk) c1 = None"
      by (simp add: find_None_iff)
    then show ?thesis
      by (simp add: out scan_fallback_find reply_def)
  qed
  have rest: "out_cache out = c1 \<and> out_calls out = [file_call e req]"
    by (simp add: out reply_def split: option.splits)
  have sub: "set c1 \<subseteq> set c"
    unfolding c1_def by (rule getCache_subset)
  from some none rest sub show ?thesis
    unfolding Let_def c1_def [symmetric] fk_def [symmetric] out_def [symmetric] by blast
qed

theorem rate_limit_fallback_witness:
  "passes_checks ex_env ex_other_req \<and>
   \<not> truthy (fst (getCache (t_get ex_late) ex_warm (request_key ex_other_req))) \<and>
   (\<exists>r. ex_429 (file_call ex_env ex_other_req) = Fetched r \<and> up_status r = 429) \<and>
   (\<exists>kv \<in> set ex_warm. fallback_match (t_scan ex_early) (the_str (q_file_key ex_other_req)) kv) \<and>
   out_status (handler ex_env ex_429 ex_early ex_warm ex_other_req) = 200 \<and>
   out_body (handler ex_env ex_429 ex_early ex_warm ex_other_req)
     = spread_with ex_payload ''_cache'' (JStr ''fallback_on_429'') \<and>
   \<not> (\<exists>kv \<in> set ex_warm. fallback_match (t_scan ex_late) (the_str (q_file_key ex_other_req)) kv) \<and>
   out_status (handler ex_env ex_429 ex_late ex_warm ex_other_req) = 429 \<and>
   out_body (handler ex_env ex_429 ex_late ex_warm ex_other_req) = rate_limited_body \<and>
   out_cache (handler ex_env ex_429 ex_late ex_warm ex_other_req) = ex_warm"
proof -
  let ?r = "\<lparr>up_status = 429, up_ctype = Some ''text/plain'', up_json = None, up_text = Some ''slow down''\<rparr>"
  have f: "ex_429 (file_call ex_env ex_other_req) = Fetched ?r" and s: "up_status ?r = 429"
    by (simp_all add: ex_429_def)
  have miss: "getCache t ex_warm (request_key ex_other_req) = (Null, ex_warm)" for t
    by (simp add: ex_other_key getCache_def ex_warm_def)
  have nt: "\<not> truthy (fst (getCache t ex_warm (request_key ex_other_req)))" for t
    by (simp add: miss)
  have fk: "the_str (q_file_key ex_other_req) = ''abc''"
    by (simp add: ex_other_req_def ex_req_def the_str_def)
  have young: "\<exists>kv \<in> set ex_warm. fallback_match (t_scan ex_early) (the_str (q_file_key ex_other_req)) kv"
    by (simp add: fk ex_warm_def fallback_match_def ex_early_def TTL_MS_def)
  have old: "\<forall>kv \<in> set ex_warm. \<not> fallback_match (t_scan ex_late) (the_str (q_file_key ex_other_req)) kv"
    by (simp add: fk ex_warm_def fallback_match_def ex_late_def TTL_MS_def)
  have fnd: "find (fallback_match (t_scan ex_early) (the_str (q_file_key ex_other_req))) ex_warm
               = Some (''abc|d=1|l=4'', \<lparr>ent_ts = 1001, ent_value = ex_payload\<rparr>)"
    by (simp add: fk ex_warm_def fallback_match_def ex_early_def TTL_MS_def)
  have 1: "out_status (handler ex_env ex_429 ex_early ex_warm ex_other_req) = 200 \<and>
           out_body (handler ex_env ex_429 ex_early ex_warm ex_other_req)
             = spread_with ex_payload ''_cache'' (JStr ''fallback_on_429'')"
    using rate_limit_fallback [where e = ex_env and req = ex_other_req and up = ex_429 and clk = ex_early
        and c = ex_warm and r = ?r, OF ex_other_passes nt f s] young fnd
    unfolding Let_def miss by auto
  have 2: "out_status (handler ex_env ex_429 ex_late ex_warm ex_other_req) = 429 \<and>
           out_body (handler ex_env ex_429 ex_late ex_warm ex_other_req) = rate_limited_body \<and>
           out_cache (handler ex_env ex_429 ex_late ex_warm ex_other_req) = ex_warm"
    using rate_limit_fallback [where e = ex_env and req = ex_other_req and up = ex_429 and clk = ex_late
        and c = ex_warm and r = ?r, OF ex_other_passes nt f s] old
    unfolding Let_def miss by auto
  from ex_other_passes nt [of "t_get ex_late"] f s young old 1 2 show ?thesis
    by blast
qed

subsection \<open>The fallback matches keys by prefix\<close>

text \<open>
  Claim C10. Cache keys are the file key, \<open>|d=\<close>, the depth, \<open>|l=\<close> and the limit,
  and the fallback accepts every key that starts with the requested file key and a
  bar. So for every file key \<open>F\<close> and every \<open>s\<close>, the file keys \<open>F\<close> and \<open>F|s\<close> are
  distinct, and once a request for \<open>F|s\<close> has stored its payload in an empty cache, a
  request for \<open>F\<close> whose file-metadata call is answered with 429 within the TTL
  responds 200 with the payload cached for \<open>F|s\<close>: its \<open>file_key\<close> is \<open>F|s\<close> and it
  differs from the first response in the marker only.
\<close>

theorem fallback_crosses_files:
  assumes "passes_checks e req1" and "q_file_key req1 = Some (F @ ''|'' @ s)"
    and "opt_dot (out_body (handler e up1 clk1 [] req1)) ''_cache'' = JStr ''miss_set''"
    and "passes_checks e req2" and "q_file_key req2 = Some F"
    and "up2 (file_call e req2) = Fetched r" and "up_status r = 429"
    and "t_scan clk2 - t_set clk1 \<le> TTL_MS"
  shows "let r1 = handler e up1 clk1 [] req1; r2 = handler e up2 clk2 (out_cache r1) req2 in
         F \<noteq> F @ ''|'' @ s \<and>
         opt_dot (out_body r1) ''file_key'' = JStr (F @ ''|'' @ s) \<and>
         out_status r2 = 200 \<and>
         opt_dot (out_body r2) ''_cache'' = JStr ''fallback_on_429'' \<and>
         opt_dot (out_body r2) ''file_key'' = JStr (F @ ''|'' @ s) \<and>
         map_delete ''_cache'' (own_props (out_body r2)) = map_delete ''_cache'' (own_props (out_body r1))"
proof -
  define r1 where "r1 = handler e up1 clk1 [] req1"
  define r2 where "r2 = handler e up2 clk2 (out_cache r1) req2"
  obtain fileJson screens nodes ncs where
    r1: "r1 = reply 200
              (spread_with (mk_payload (the_str (q_file_key req1)) fileJson screens nodes) ''_cache'' (JStr ''miss_set''))
              (setCache (t_set clk1) (snd (getCache (t_get clk1) [] (request_key req1))) (request_key req1)
                 (mk_payload (the_str (q_file_key req1)) fileJson screens nodes))
              (file_call e req1 # ncs)"
    using handler_miss_set [OF assms(1,3)] unfolding r1_def by blast
  define payload where "payload = mk_payload (F @ ''|'' @ s) fileJson screens nodes"
  have fk1: "the_str (q_file_key req1) = F @ ''|'' @ s" and fk2: "the_str (q_file_key req2) = F"
    using assms(2,5) by (simp_all add: the_str_def)
  have c1: "out_cache r1 = [(request_key req1, \<lparr>ent_ts = t_set clk1, ent_value = payload\<rparr>)]"
    by (simp add: r1 reply_def setCache_def getCache_def payload_def fk1)
  have d1: "or_default (q_depth req1) ''1'' \<in> set [''1'', ''2'', ''3'']"
    and d2: "or_default (q_depth req2) ''1'' \<in> set [''1'', ''2'', ''3'']"
    using assms(1,4) by (simp_all add: passes_checks_def)
  have keys: "request_key req2 \<noteq> request_key req1"
    unfolding request_key_def fk1 fk2 by (rule cross_keys_differ [OF d1 d2])
  have miss: "getCache (t_get clk2) (out_cache r1) (request_key req2) = (Null, out_cache r1)"
    using keys by (simp add: c1 getCache_def)
  have pre: "starts_with (request_key req1) (F @ ''|'')"
    using starts_with_append [of "F @ ''|''"] by (simp add: request_key_def fk1 cache_key_def)
  have scan: "scan_fallback (t_scan clk2) F (out_cache r1) = Some payload"
    using pre assms(8) by (simp add: c1)
  have r2: "r2 = reply 200 (spread_with payload ''_cache'' (JStr ''fallback_on_429'')) (out_cache r1) [file_call e req2]"
  proof -
    have "up2 (GetFile F (or_default (q_depth req2) ''1'') (FIGMA_PAT e)) = Fetched r"
      using assms(6) by (simp add: file_call_def fk2)
    from on_miss_429 [where up = up2 and fileKey = F and r = r, OF this assms(7)] miss scan show ?thesis
      unfolding r2_def by (simp add: handler_passes [OF assms(4)] fk2 file_call_def)
  qed
  have b1: "out_body r1 = spread_with payload ''_cache'' (JStr ''miss_set'')"
    by (simp add: r1 reply_def payload_def fk1)
  have b2: "out_body r2 = spread_with payload ''_cache'' (JStr ''fallback_on_429'')"
    by (simp add: r2 reply_def)
  have k1: "opt_dot (out_body r1) ''file_key'' = JStr (F @ ''|'' @ s)"
    and k2: "opt_dot (out_body r2) ''file_key'' = JStr (F @ ''|'' @ s)"
    unfolding b1 b2 by (simp_all add: payload_def mk_payload_def spread_with_def)
  have same: "map_delete ''_cache'' (own_props (out_body r2)) = map_delete ''_cache'' (own_props (out_body r1))"
    unfolding b1 b2 by (simp only: payload_of_spread)
  have "F \<noteq> F @ ''|'' @ s" "out_status r2 = 200"
       "opt_dot (out_body r2) ''_cache'' = JStr ''fallback_on_429''"
    by (simp_all add: r2 reply_def opt_dot_spread)
  with k1 k2 same show ?thesis
    unfolding Let_def r1_def [symmetric] r2_def [symmetric] by simp
qed

theorem fallback_crosses_files_witness:
  "passes_checks ex_env ex_bar_req \<and> q_file_key ex_bar_req = Some (''abc'' @ ''|'' @ ''x'') \<and>
   opt_dot (out_body (handler ex_env ex_up ex_early [] ex_bar_req)) ''_cache'' = JStr ''miss_set'' \<and>
   passes_checks ex_env ex_req \<and> q_file_key ex_req = Some ''abc'' \<and>
   (\<exists>r. ex_429 (file_call ex_env ex_req) = Fetched r \<and> up_status r = 429) \<and>
   t_scan ex_soon - t_set ex_early \<le> TTL_MS \<and>
   ''abc'' \<noteq> ''abc|x'' \<and>
   out_status (handler ex_env ex_429 ex_soon (out_cache (handler ex_env ex_up ex_early [] ex_bar_req)) ex_req) = 200 \<and>
   opt_dot (out_body (handler ex_env ex_429 ex_soon (out_cache (handler ex_env ex_up ex_early [] ex_bar_req)) ex_req))
     ''file_key'' = JStr ''abc|x'' \<and>
   opt_dot (out_body (handler ex_env ex_429 ex_soon (out_cache (handler ex_env ex_up ex_early [] ex_bar_req)) ex_req))
     ''_cache'' = JStr ''fallback_on_429''"
proof -
  let ?r = "\<lparr>up_status = 429, up_ctype = Some ''text/plain'', up_json = None, up_text = Some ''slow down''\<rparr>"
  have k1: "q_file_key ex_bar_req = Some (''abc'' @ ''|'' @ ''x'')" and k2: "q_file_key ex_req = Some ''abc''"
    by (simp_all add: ex_bar_req_def ex_req_def)
  have f: "ex_429 (file_call ex_env ex_req) = Fetched ?r" and s: "up_status ?r = 429"
    by (simp_all add: ex_429_def)
  have a: "t_scan ex_soon - t_set ex_early \<le> TTL_MS"
    by (simp add: ex_soon_def ex_early_def TTL_MS_def)
  from fallback_crosses_files [where e = ex_env and ?req1.0 = ex_bar_req and F = "''abc''" and s = "''x''"
      and ?up1.0 = ex_up and ?clk1.0 = ex_early and ?req2.0 = ex_req and ?up2.0 = ex_429 and r = ?r
      and ?clk2.0 = ex_soon, OF ex_bar_passes k1 ex_bar_marker ex_passes k2 f s a]
  have "''abc'' \<noteq> ''abc|x'' \<and>
        out_status (handler ex_env ex_429 ex_soon (out_cache (handler ex_env ex_up ex_early [] ex_bar_req)) ex_req) = 200 \<and>
        opt_dot (out_body (handler ex_env ex_429 ex_soon (out_cache (handler ex_env ex_up ex_early [] ex_bar_req)) ex_req))
          ''file_key'' = JStr ''abc|x'' \<and>
        opt_dot (out_body (handler ex_env ex_429 ex_soon (out_cache (handler ex_env ex_up ex_early [] ex_bar_req)) ex_req))
          ''_cache'' = JStr ''fallback_on_429''"
    unfolding Let_def by simp
  with ex_bar_passes k1 ex_bar_marker ex_passes k2 f s a show ?thesis
    by blast
qed

subsection \<open>Screen selection\<close>

lemma iterate_children: "has_child_list v \<Longrightarrow> iterate (js_or (opt_dot v ''children'') (JArr [])) = Inr (children_of v)"
  by (simp add: has_child_list_def children_of_def split: sum.splits)

lemma dot_defined: "is_defined v \<Longrightarrow> dot v f = Inr (opt_dot v f)"
  by (cases v) (simp_all add: is_defined_def)

lemma pickNodes_take:
  "int (length acc) < l \<Longrightarrow>
   pickNodes nodes (Num l) acc =
     (l \<le> int (length acc + length (filter qualifies nodes)),
      take (nat l) (acc @ map mk_screen (filter qualifies nodes)))"
proof (induction nodes arbitrary: acc)
  case Nil
  then show ?case by simp
next
  case (Cons node rest)
  show ?case
  proof (cases "qualifies node")
    case False
    then show ?thesis
      using Cons by (simp add: qualifies_def)
  next
    case True
    show ?thesis
    proof (cases "l \<le> int (length acc) + 1")
      case full: True
      with Cons.prems have "nat l = length acc + 1"
        by simp
      with True full show ?thesis
        by (simp add: qualifies_def [symmetric] Let_def)
    next
      case more: False
      then have "int (length (acc @ [mk_screen node])) < l"
        by simp
      from Cons.IH [OF this] True more show ?thesis
        by (simp add: qualifies_def [symmetric] Let_def)
    qed
  qed
qed

lemma pickPages_take:
  "int (length acc) < l \<Longrightarrow> list_all has_child_list (filter is_canvas pages) \<Longrightarrow>
   pickPages pages (Num l) acc =
     Inr (take (nat l) (acc @ concat (map screens_of_canvas (filter is_canvas pages))))"
proof (induction pages arbitrary: acc)
  case Nil
  then show ?case by simp
next
  case (Cons page rest)
  show ?case
  proof (cases "is_canvas page")
    case False
    then show ?thesis
      using Cons by (simp add: is_canvas_def)
  next
    case True
    with Cons.prems have kids: "has_child_list page" and rest: "list_all has_child_list (filter is_canvas rest)"
      by simp_all
    have inner: "pickNodes (children_of page) (Num l) acc =
                   (l \<le> int (length (acc @ screens_of_canvas page)), take (nat l) (acc @ screens_of_canvas page))"
      using pickNodes_take [OF Cons.prems(1)] by (simp add: screens_of_canvas_def)
    show ?thesis
    proof (cases "l \<le> int (length (acc @ screens_of_canvas page))")
      case full: True
      then have "take (nat l) (acc @ screens_of_canvas page @ concat (map screens_of_canvas (filter is_canvas rest)))
                   = take (nat l) (acc @ screens_of_canvas page)"
        by simp
      with True full inner iterate_children [OF kids] show ?thesis
        by (simp add: is_canvas_def [symmetric])
    next
      case more: False
      then have short: "int (length (acc @ screens_of_canvas page)) < l"
        by simp
      then have "take (nat l) (acc @ screens_of_canvas page) = acc @ screens_of_canvas page"
        by simp
      with Cons.IH [OF short rest] True more inner iterate_children [OF kids] show ?thesis
        by (simp add: is_canvas_def [symmetric])
    qed
  qed
qed

lemma pickTopScreens_select:
  assumes "tree_shaped fileJson" and "1 \<le> l"
  shows "pickTopScreens fileJson (Num l) = Inr (select_screens fileJson (nat l))"
proof -
  have "int (length ([] :: jsval list)) < l"
    using assms(2) by simp
  from pickPages_take [OF this] assms(1) show ?thesis
    by (simp add: pickTopScreens_def select_screens_def tree_shaped_def iterate_children)
qed

lemma enrich_nodes_take:
  "int (length acc) < l \<Longrightarrow> list_all is_defined nodes \<Longrightarrow>
   enrich_nodes nodes (Num l) acc = Inr (take (nat l) (acc @ map mk_screen (filter qualifies nodes)))"
proof (induction nodes arbitrary: acc)
  case Nil
  then show ?case by simp
next
  case (Cons node rest)
  from Cons.prems have d: "dot node ''type'' = Inr (opt_dot node ''type'')" and r: "list_all is_defined rest"
    by (simp_all add: dot_defined)
  show ?case
  proof (cases "qualifies node")
    case False
    then show ?thesis
      using Cons.IH [OF Cons.prems(1) r] d by (simp add: qualifies_def)
  next
    case True
    show ?thesis
    proof (cases "l \<le> int (length acc) + 1")
      case full: True
      with Cons.prems have "nat l = length acc + 1"
        by simp
      with True full d show ?thesis
        by (simp add: qualifies_def [symmetric] Let_def)
    next
      case more: False
      then have "int (length (acc @ [mk_screen node])) < l"
        by simp
      from Cons.IH [OF this r] True more d show ?thesis
        by (simp add: qualifies_def [symmetric] Let_def)
    qed
  qed
qed

lemma enrich_pages_take:
  "int (length acc) < l \<Longrightarrow> list_all is_defined pages \<Longrightarrow>
   list_all has_child_list (filter is_canvas pages) \<Longrightarrow>
   list_all (\<lambda>page. list_all is_defined (children_of page)) (filter is_canvas pages) \<Longrightarrow>
   enrich_pages pages (Num l) acc =
     Inr (take (nat l) (acc @ concat (map screens_of_canvas (filter is_canvas pages))))"
proof (induction pages arbitrary: acc)
  case Nil
  then show ?case by simp
next
  case (Cons page rest)
  from Cons.prems have d: "dot page ''type'' = Inr (opt_dot page ''type'')" and r: "list_all is_defined rest"
    by (simp_all add: dot_defined)
  show ?case
  proof (cases "is_canvas page")
    case False
    with Cons.prems have "list_all has_child_list (filter is_canvas rest)"
      "list_all (\<lambda>page. list_all is_defined (children_of page)) (filter is_canvas rest)"
      by simp_all
    from Cons.IH [OF Cons.prems(1) r this] False d show ?thesis
      by (simp add: is_canvas_def)
  next
    case True
    with Cons.prems have kids: "has_child_list page" and nn: "list_all is_defined (children_of page)"
      and rest: "list_all has_child_list (filter is_canvas rest)"
        "list_all (\<lambda>page. list_all is_defined (children_of page)) (filter is_canvas rest)"
      by simp_all
    define S where "S = take (nat l) (acc @ screens_of_canvas page)"
    have inner: "enrich_nodes (children_of page) (Num l) acc = Inr S"
      using enrich_nodes_take [OF Cons.prems(1) nn] by (simp add: screens_of_canvas_def S_def)
    have step: "enrich_pages (page # rest) (Num l) acc =
                  (if ge_num (length S) (Num l) then Inr S else enrich_pages rest (Num l) S)"
      using True inner iterate_children [OF kids] d by (simp add: is_canvas_def [symmetric])
    show ?thesis
    proof (cases "l \<le> int (length (acc @ screens_of_canvas page))")
      case full: True
      with Cons.prems(1) have "ge_num (length S) (Num l)"
        by (simp add: S_def)
      then have lhs: "enrich_pages (page # rest) (Num l) acc = Inr S"
        unfolding step by simp
      have rhs: "take (nat l) (acc @ concat (map screens_of_canvas (filter is_canvas (page # rest)))) = S"
        using True full by (simp add: S_def)
      show ?thesis
        unfolding lhs rhs ..
    next
      case more: False
      then have short: "int (length (acc @ screens_of_canvas page)) < l"
        by simp
      then have same: "S = acc @ screens_of_canvas page"
        by (simp add: S_def)
      with short have "\<not> ge_num (length S) (Num l)"
        by simp
      then have lhs: "enrich_pages (page # rest) (Num l) acc = enrich_pages rest (Num l) (acc @ screens_of_canvas page)"
        unfolding step by (simp add: same)
      have rhs: "acc @ concat (map screens_of_canvas (filter is_canvas (page # rest)))
                 = (acc @ screens_of_canvas page) @ concat (map screens_of_canvas (filter is_canvas rest))"
        using True by simp
      show ?thesis
        unfolding lhs rhs by (rule Cons.IH [OF short r rest])
    qed
  qed
qed

lemma enrich_screens_select:
  assumes "tree_shaped fileJson" and "no_null_nodes fileJson" and "1 \<le> l"
  shows "enrich_screens fileJson (Num l) = Inr (select_screens fileJson (nat l))"
proof -
  have "int (length ([] :: jsval list)) < l"
    using assms(3) by simp
  from enrich_pages_take [OF this] assms(1,2) show ?thesis
    by (simp add: enrich_screens_def select_screens_def tree_shaped_def no_null_nodes_def
        iterate_children dot_defined)
qed

lemma select_nothing:
  assumes "list_all (\<lambda>page. filter qualifies (children_of page) = [])
             (filter is_canvas (children_of (opt_dot fileJson ''document'')))"
  shows "select_screens fileJson n = []"
proof -
  have "concat (map screens_of_canvas ps) = []" if "list_all (\<lambda>page. filter qualifies (children_of page) = []) ps" for ps
    using that by (induction ps) (simp_all add: screens_of_canvas_def)
  from this [OF assms] show ?thesis
    by (simp add: select_screens_def)
qed

text \<open>
  Claim C5. For every document tree and every limit of at least 1, \<open>pickTopScreens\<close>
  returns what the specification's selector returns: the \<open>{id, name}\<close> pairs of the
  frame and section children of the canvas children of the root, in tree order, cut
  at the limit. The loops of figma-enrich.js return the same on a tree without
  \<open>null\<close> nodes. A tree whose canvases have no qualifying child (in particular a tree
  with no canvas) gives the empty list and no error. On the example file (a canvas
  with three frames and a text node, then a canvas with two sections) and limit 4
  both return the three frames and then the first section.
\<close>

theorem screen_selection:
  "(tree_shaped fileJson \<and> 1 \<le> l \<longrightarrow>
      pickTopScreens fileJson (Num l) = Inr (select_screens fileJson (nat l)) \<and>
      (no_null_nodes fileJson \<longrightarrow> enrich_screens fileJson (Num l) = Inr (select_screens fileJson (nat l))) \<and>
      (list_all (\<lambda>page. filter qualifies (children_of page) = [])
         (filter is_canvas (children_of (opt_dot fileJson ''document''))) \<longrightarrow>
       pickTopScreens fileJson (Num l) = Inr [])) \<and>
   pickTopScreens ex_doc (Num 4) = Inr [ex_screen ''1:1'', ex_screen ''1:3'', ex_screen ''1:4'', ex_screen ''2:1''] \<and>
   enrich_screens ex_doc (Num 4) = Inr [ex_screen ''1:1'', ex_screen ''1:3'', ex_screen ''1:4'', ex_screen ''2:1'']"
proof -
  have ex1: "pickTopScreens ex_doc (Num 4)
               = Inr [ex_screen ''1:1'', ex_screen ''1:3'', ex_screen ''1:4'', ex_screen ''2:1'']"
    by (simp add: ex_doc_def ex_node_def ex_screen_def pickTopScreens_def js_or_def is_screen_type_def mk_screen_def)
  have ex2: "enrich_screens ex_doc (Num 4)
               = Inr [ex_screen ''1:1'', ex_screen ''1:3'', ex_screen ''1:4'', ex_screen ''2:1'']"
    by (simp add: ex_doc_def ex_node_def ex_screen_def enrich_screens_def js_or_def is_screen_type_def mk_screen_def)
  have gen: "pickTopScreens fileJson (Num l) = Inr (select_screens fileJson (nat l)) \<and>
      (no_null_nodes fileJson \<longrightarrow> enrich_screens fileJson (Num l) = Inr (select_screens fileJson (nat l))) \<and>
      (list_all (\<lambda>page. filter qualifies (children_of page) = [])
         (filter is_canvas (children_of (opt_dot fileJson ''document''))) \<longrightarrow>
       pickTopScreens fileJson (Num l) = Inr [])"
    if "tree_shaped fileJson" "1 \<le> l"
    using pickTopScreens_select [OF that] enrich_screens_select [OF that(1) _ that(2)]
      select_nothing [of fileJson "nat l"]
    by simp
  from gen ex1 ex2 show ?thesis
    by blast
qed

theorem screen_selection_witness:
  "tree_shaped ex_doc \<and> no_null_nodes ex_doc \<and> (1::int) \<le> 4 \<and>
   select_screens ex_doc (nat 4) = [ex_screen ''1:1'', ex_screen ''1:3'', ex_screen ''1:4'', ex_screen ''2:1''] \<and>
   pickTopScreens ex_doc (Num 4) = Inr (select_screens ex_doc (nat 4)) \<and>
   enrich_screens ex_doc (Num 4) = Inr (select_screens ex_doc (nat 4)) \<and>
   tree_shaped ex_no_canvas \<and>
   list_all (\<lambda>page. filter qualifies (children_of page) = [])
     (filter is_canvas (children_of (opt_dot ex_no_canvas ''document''))) \<and>
   pickTopScreens ex_no_canvas (Num 4) = Inr []"
proof -
  have kids: "children_of (opt_dot ex_doc ''document'') =
                [JObj [(''type'', JStr ''CANVAS''),
                       (''children'', JArr [ex_node ''FRAME'' ''1:1'', ex_node ''TEXT'' ''1:2'',
                                             ex_node ''FRAME'' ''1:3'', ex_node ''FRAME'' ''1:4''])],
                 JObj [(''type'', JStr ''CANVAS''),
                       (''children'', JArr [ex_node ''SECTION'' ''2:1'', ex_node ''SECTION'' ''2:2''])]]"
    by (simp add: ex_doc_def children_of_def js_or_def)
  have t: "tree_shaped ex_doc"
    unfolding tree_shaped_def kids by (simp add: ex_doc_def has_child_list_def is_canvas_def js_or_def)
  have n: "no_null_nodes ex_doc"
    unfolding no_null_nodes_def kids
    by (simp add: ex_doc_def ex_node_def is_defined_def is_canvas_def children_of_def js_or_def)
  have s: "select_screens ex_doc (nat 4) = [ex_screen ''1:1'', ex_screen ''1:3'', ex_screen ''1:4'', ex_screen ''2:1'']"
    unfolding select_screens_def kids
    by (simp add: screens_of_canvas_def is_canvas_def children_of_def js_or_def qualifies_def
        is_screen_type_def ex_node_def mk_screen_def ex_screen_def)
  have kids0: "children_of (opt_dot ex_no_canvas ''document'') = [ex_node ''FRAME'' ''9:9'']"
    by (simp add: ex_no_canvas_def children_of_def js_or_def)
  have t0: "tree_shaped ex_no_canvas"
    unfolding tree_shaped_def kids0 by (simp add: ex_no_canvas_def has_child_list_def is_canvas_def js_or_def ex_node_def)
  have e0: "list_all (\<lambda>page. filter qualifies (children_of page) = [])
              (filter is_canvas (children_of (opt_dot ex_no_canvas ''document'')))"
    unfolding kids0 by (simp add: is_canvas_def ex_node_def)
  have l: "(1::int) \<le> 4"
    by simp
  from screen_selection [of ex_doc 4] t n l
  have 1: "pickTopScreens ex_doc (Num 4) = Inr (select_screens ex_doc (nat 4))"
    and 2: "enrich_screens ex_doc (Num 4) = Inr (select_screens ex_doc (nat 4))"
    by blast+
  from screen_selection [of ex_no_canvas 4] t0 e0 l
  have 3: "pickTopScreens ex_no_canvas (Num 4) = Inr []"
    by blast
  from t n l s 1 2 t0 e0 3 show ?thesis
    by blast
qed

subsection \<open>The response envelope\<close>

lemma map_set_fresh: "k \<notin> set (map fst m) \<Longrightarrow> map_set k v m = m @ [(k, v)]"
  by (induction m) auto

lemma payload_marked:
  assumes "is_payload v" and "x \<noteq> Undefined"
  shows "wire_keys (spread_with v ''_cache'' x) = payload_keys @ [''_cache'']"
    and "opt_dot (spread_with v ''_cache'' x) ''error'' = Undefined"
proof -
  from assms(1) obtain ps where v: "v = JObj ps" and k: "map fst ps = payload_keys"
    and d: "list_all (\<lambda>p. snd p \<noteq> Undefined) ps"
    by (cases v) (auto simp: is_payload_def)
  have fresh: "''_cache'' \<notin> set (map fst ps)" and noerr: "''error'' \<notin> set (map fst ps)"
    unfolding k by (simp_all add: payload_keys_def)
  have sp: "spread_with v ''_cache'' x = JObj (ps @ [(''_cache'', x)])"
    using map_set_fresh [OF fresh] by (simp add: spread_with_def v)
  have "filter (\<lambda>p. snd p \<noteq> Undefined) ps = ps"
    using d by (simp add: list_all_iff)
  then show "wire_keys (spread_with v ''_cache'' x) = payload_keys @ [''_cache'']"
    using assms(2) k by (simp add: sp wire_keys_def)
  have "map_of ps ''error'' = None"
    using noerr by (simp add: map_of_eq_None_iff)
  then show "opt_dot (spread_with v ''_cache'' x) ''error'' = Undefined"
    by (simp add: sp map_add_def)
qed

lemma fetch_nodes_defined: "fetch_nodes up fileKey token screens = (Inr nodes, ncs) \<Longrightarrow> nodes \<noteq> Undefined"
  by (auto simp: fetch_nodes_def js_or_def Let_def split: if_splits fetch_result.splits)

lemma mk_payload_is_payload:
  "nodes \<noteq> Undefined \<Longrightarrow> is_payload (mk_payload fileKey fileJson screens nodes)"
  by (auto simp: is_payload_def mk_payload_def payload_keys_def js_or_def)

lemma handler_fails_checks:
  "\<not> passes_checks e req \<Longrightarrow> out_status (handler e up clk c req) \<in> {405, 401, 400, 500} \<and>
     out_calls (handler e up clk c req) = [] \<and> out_cache (handler e up clk c req) = c"
  by (auto simp: handler_def passes_checks_def reply_def Let_def)

lemma getCache_payload:
  assumes "cache_holds_payloads c" and "truthy (fst (getCache now c key))"
  shows "is_payload (fst (getCache now c key))"
proof (cases "map_of c key")
  case None
  with assms(2) show ?thesis by (simp add: getCache_def)
next
  case (Some item)
  then have "(key, item) \<in> set c"
    by (rule map_of_SomeD)
  with assms(1) have "is_payload (ent_value item)"
    by (auto simp: cache_holds_payloads_def list_all_iff)
  with assms(2) Some show ?thesis
    by (simp add: getCache_def split: if_splits)
qed

lemma getCache_keeps_payloads:
  "cache_holds_payloads c \<Longrightarrow> cache_holds_payloads (snd (getCache now c key))"
  using getCache_subset [of now c key] by (auto simp: cache_holds_payloads_def list_all_iff)

lemma setCache_keeps_payloads:
  "cache_holds_payloads c \<Longrightarrow> is_payload v \<Longrightarrow> cache_holds_payloads (setCache now c key v)"
  unfolding setCache_def cache_holds_payloads_def by (induction c) auto

lemma scan_fallback_payload:
  "cache_holds_payloads c \<Longrightarrow> scan_fallback now fileKey c = Some v \<Longrightarrow> is_payload v"
  unfolding cache_holds_payloads_def by (induction c) (auto split: if_splits)

lemma markers_defined: "JStr m \<noteq> Undefined"
  by simp

lemma on_miss_shape:
  assumes "cache_holds_payloads c"
  shows "cache_holds_payloads (out_cache (on_miss up clk c ckey fileKey depth limit token)) \<and>
         (out_status (on_miss up clk c ckey fileKey depth limit token) = 200 \<and>
          opt_dot (out_body (on_miss up clk c ckey fileKey depth limit token)) ''error'' = Undefined \<longrightarrow>
          wire_keys (out_body (on_miss up clk c ckey fileKey depth limit token)) = payload_keys @ [''_cache''] \<and>
          opt_dot (out_body (on_miss up clk c ckey fileKey depth limit token)) ''_cache'' \<in> set markers)"
proof (cases "up (GetFile fileKey depth token)")
  case (Rejected m)
  with assms show ?thesis
    by (simp add: on_miss_def reply_def Let_def)
next
  case (Fetched r)
  show ?thesis
  proof (cases "f_status (fetchJson r) = 429")
    case True
    show ?thesis
    proof (cases "scan_fallback (t_scan clk) fileKey c")
      case None
      with assms Fetched True show ?thesis
        by (simp add: on_miss_def reply_def Let_def)
    next
      case (Some v)
      from scan_fallback_payload [OF assms Some] have "is_payload v" .
      from payload_marked [OF this markers_defined, of "''fallback_on_429''"] assms Fetched True Some
      show ?thesis
        by (simp add: on_miss_def reply_def Let_def opt_dot_spread markers_def)
    qed
  next
    case not429: False
    show ?thesis
    proof (cases "\<not> f_ok (fetchJson r) \<or> \<not> truthy (f_json (fetchJson r))")
      case True
      with assms Fetched not429 show ?thesis
        by (auto simp add: on_miss_def reply_def Let_def)
    next
      case ok: False
      show ?thesis
      proof (cases "pickTopScreens (f_json (fetchJson r)) limit")
        case (Inl err)
        with assms Fetched not429 ok show ?thesis
          by (simp add: on_miss_def reply_def Let_def)
      next
        case (Inr screens)
        obtain res ncs where fn: "fetch_nodes up fileKey token screens = (res, ncs)"
          by (cases "fetch_nodes up fileKey token screens")
        show ?thesis
        proof (cases res)
          case (Inl err)
          with assms Fetched not429 ok Inr fn show ?thesis
            by (simp add: on_miss_def reply_def Let_def)
        next
          case nodes: (Inr nodes)
          have "nodes \<noteq> Undefined"
            using fn nodes by (auto dest: fetch_nodes_defined)
          then have "is_payload (mk_payload fileKey (f_json (fetchJson r)) screens nodes)"
            by (rule mk_payload_is_payload)
          from payload_marked [OF this markers_defined, of "''miss_set''"]
            setCache_keeps_payloads [OF assms this, of "t_set clk" ckey]
            Fetched not429 ok Inr fn nodes
          show ?thesis
            by (simp add: on_miss_def reply_def Let_def opt_dot_spread markers_def)
        qed
      qed
    qed
  qed
qed

lemma handler_shape:
  assumes "cache_holds_payloads c"
  shows "cache_holds_payloads (out_cache (handler e up clk c req)) \<and>
         (out_status (handler e up clk c req) = 200 \<and>
          opt_dot (out_body (handler e up clk c req)) ''error'' = Undefined \<longrightarrow>
          wire_keys (out_body (handler e up clk c req)) = payload_keys @ [''_cache''] \<and>
          opt_dot (out_body (handler e up clk c req)) ''_cache'' \<in> set markers)"
proof (cases "passes_checks e req")
  case False
  from handler_fails_checks [OF this, of up clk c] assms show ?thesis
    by auto
next
  case True
  note c1 = getCache_keeps_payloads [OF assms, of "t_get clk" "request_key req"]
  show ?thesis
  proof (cases "truthy (fst (getCache (t_get clk) c (request_key req)))")
    case hit: True
    from payload_marked [OF getCache_payload [OF assms hit] markers_defined, of "''hit''"] c1 hit
    show ?thesis
      by (simp add: handler_passes [OF True] reply_def opt_dot_spread markers_def)
  next
    case False
    with on_miss_shape [OF c1] show ?thesis
      by (simp add: handler_passes [OF True])
  qed
qed

lemma enrich_success_keys:
  "out_status (enrich_handler e up req) = 200 \<Longrightarrow>
   keys_of (out_body (enrich_handler e up req)) = [''file_key'', ''file_name'', ''screens'', ''nodes'']"
  by (auto simp: enrich_handler_def reply_def Let_def resp_ok_def err_body_def enrich_unexpected_def
      split: if_splits fetch_result.splits option.splits sum.splits prod.splits)

lemma ex_enrich:
  "enrich_handler ex_env ex_up ex_req =
     reply 200
       (JObj [(''file_key'', JStr ''abc''), (''file_name'', JStr ''File''),
              (''screens'', JArr [ex_screen ''1:1'', ex_screen ''1:3'', ex_screen ''1:4'', ex_screen ''2:1'']),
              (''nodes'', JObj [(''1:1'', JObj [])])])
       []
       [GetFile ''abc'' ''1'' (Some ''pat''),
        GetNodes ''abc'' [JStr ''1:1'', JStr ''1:3'', JStr ''1:4'', JStr ''2:1''] (Some ''pat'')]"
  by (simp add: enrich_handler_def enrich_limit_of_def enrich_screens_def enrich_fetch_nodes_def ex_defs
      ex_screen_def model_defs)

text \<open>
  The handler of part_000 answers with the upstream's status when the file fetch
  fails, and a 200 whose body does not parse as JSON counts as a failure: the status
  is then 200 and the body is the error envelope. A successful response is therefore a
  200 whose body has no \<open>error\<close> property.
\<close>

lemma unparsed_file_answers_200:
  "out_status (handler ex_env ex_html ex_early [] ex_req) = 200 \<and>
   opt_dot (out_body (handler ex_env ex_html ex_early [] ex_req)) ''error'' = JStr ''Figma file fetch failed''"
  by (simp add: ex_html_def ex_defs ex_early_def model_defs)

text \<open>
  The handler of part_000 keeps the cache a store of payloads. On such a cache, every
  response with status 200 and no \<open>error\<close> property has exactly the fields
  \<open>file_key\<close>, \<open>file_name\<close>, \<open>last_modified\<close>, \<open>screens\<close>, \<open>nodes\<close> and \<open>_cache\<close>, and
  \<open>_cache\<close> is one of \<open>hit\<close>, \<open>fallback_on_429\<close>, \<open>miss_set\<close>.
\<close>

lemma handler_success_fields:
  assumes "cache_holds_payloads c" and "out_status (handler e up clk c req) = 200"
    and "opt_dot (out_body (handler e up clk c req)) ''error'' = Undefined"
  shows "wire_keys (out_body (handler e up clk c req))
           = [''file_key'', ''file_name'', ''last_modified'', ''screens'', ''nodes'', ''_cache''] \<and>
         opt_dot (out_body (handler e up clk c req)) ''_cache''
           \<in> set [JStr ''hit'', JStr ''fallback_on_429'', JStr ''miss_set''] \<and>
         cache_holds_payloads (out_cache (handler e up clk c req))"
  using handler_shape [OF assms(1), of e up clk req] assms(2,3)
  by (simp add: payload_keys_def markers_def)

lemma handler_example_fields:
  "cache_holds_payloads [] \<and>
   out_status (handler ex_env ex_up ex_early [] ex_req) = 200 \<and>
   wire_keys (out_body (handler ex_env ex_up ex_early [] ex_req))
     = [''file_key'', ''file_name'', ''last_modified'', ''screens'', ''nodes'', ''_cache'']"
  by (simp add: ex_first reply_def spread_with_def ex_payload_def wire_keys_def cache_holds_payloads_def)

text \<open>
  Claim C9 fails on src/api/figma-enrich.js, whose response (lines 65-70) is built
  from \<open>file_key\<close>, \<open>file_name\<close>, \<open>screens\<close> and \<open>nodes\<close> only: the example request is
  answered 200 and the body has neither \<open>last_modified\<close> nor \<open>_cache\<close>. The handler of
  part_000 answers the same request with all six fields.
\<close>

theorem enrich_envelope_fields:
  "out_status (enrich_handler ex_env ex_up ex_req) = 200 \<and>
   keys_of (out_body (enrich_handler ex_env ex_up ex_req)) = [''file_key'', ''file_name'', ''screens'', ''nodes''] \<and>
   ''last_modified'' \<notin> set (keys_of (out_body (enrich_handler ex_env ex_up ex_req))) \<and>
   ''_cache'' \<notin> set (keys_of (out_body (enrich_handler ex_env ex_up ex_req)))"
  by (simp add: ex_enrich reply_def)

subsection \<open>Depth validation\<close>

lemma depth_rejected:
  assumes "req_method req = ''GET''" and "truthy_s (RELAY_KEY e)" and "x_relay_key req = RELAY_KEY e"
    and "q_depth req = Some d" and "d \<noteq> []" and "d \<notin> set [''1'', ''2'', ''3'']"
  shows "out_status (handler e up clk c req) = 400 \<and> out_calls (handler e up clk c req) = [] \<and>
         out_cache (handler e up clk c req) = c"
  using assms by (simp add: handler_def reply_def Let_def)

lemma depth_default:
  assumes "q_depth req = None \<or> q_depth req = Some []"
  shows "handler e up clk c req = handler e up clk c (req\<lparr>q_depth := Some ''1''\<rparr>)"
  using assms by (auto simp: handler_def)

text \<open>
  Claim C8, as amended. In the handler of part_000, a GET request with the right
  relay key whose depth parameter is a non-empty string other than \<open>1\<close>, \<open>2\<close>, \<open>3\<close> is
  answered 400 with no upstream call and the cache untouched. A request whose depth
  parameter is absent or empty is handled exactly as the same request with depth \<open>1\<close>.
\<close>

theorem depth_validation:
  "(req_method req = ''GET'' \<and> truthy_s (RELAY_KEY e) \<and> x_relay_key req = RELAY_KEY e \<and>
    q_depth req = Some d \<and> d \<noteq> [] \<and> d \<notin> set [''1'', ''2'', ''3''] \<longrightarrow>
      out_status (handler e up clk c req) = 400 \<and> out_calls (handler e up clk c req) = [] \<and>
      out_cache (handler e up clk c req) = c) \<and>
   (q_depth req = None \<or> q_depth req = Some [] \<longrightarrow>
      handler e up clk c req = handler e up clk c (req\<lparr>q_depth := Some ''1''\<rparr>))"
  using depth_rejected [of req e d up clk c] depth_default [of req e up clk c]
  by blast

theorem depth_validation_witness:
  "req_method ex_deep_req = ''GET'' \<and> truthy_s (RELAY_KEY ex_env) \<and>
   x_relay_key ex_deep_req = RELAY_KEY ex_env \<and>
   q_depth ex_deep_req = Some ''9'' \<and> ''9'' \<noteq> [] \<and> ''9'' \<notin> set [''1'', ''2'', ''3''] \<and>
   out_status (handler ex_env ex_up ex_early [] ex_deep_req) = 400 \<and>
   out_calls (handler ex_env ex_up ex_early [] ex_deep_req) = [] \<and>
   q_depth ex_req = None \<and>
   handler ex_env ex_up ex_early [] ex_req = handler ex_env ex_up ex_early [] (ex_req\<lparr>q_depth := Some ''1''\<rparr>)"
proof -
  have h: "req_method ex_deep_req = ''GET''" "truthy_s (RELAY_KEY ex_env)"
    "x_relay_key ex_deep_req = RELAY_KEY ex_env"
    "q_depth ex_deep_req = Some ''9''" "''9'' \<noteq> []" "''9'' \<notin> set [''1'', ''2'', ''3'']"
    "q_depth ex_req = None"
    by (simp_all add: ex_deep_req_def ex_req_def ex_env_def)
  from depth_validation [of ex_deep_req ex_env "''9''" ex_up ex_early "[]"] h(1-6)
  have 1: "out_status (handler ex_env ex_up ex_early [] ex_deep_req) = 400 \<and>
           out_calls (handler ex_env ex_up ex_early [] ex_deep_req) = []"
    by blast
  from depth_validation [of ex_req ex_env "''9''" ex_up ex_early "[]"] h(7)
  have 2: "handler ex_env ex_up ex_early [] ex_req = handler ex_env ex_up ex_early [] (ex_req\<lparr>q_depth := Some ''1''\<rparr>)"
    by blast
  from h 1 2 show ?thesis
    by blast
qed

text \<open>
  The claim as stated fails in part_000 at a depth parameter that is present and
  empty: it is not one of the three strings, and the request is served as depth \<open>1\<close>.
\<close>

theorem depth_validation_counterexample:
  "q_depth ex_blank_depth = Some [] \<and> [] \<notin> set [''1'', ''2'', ''3''] \<and>
   out_status (handler ex_env ex_up ex_early [] ex_blank_depth) = 200 \<and>
   out_calls (handler ex_env ex_up ex_early [] ex_blank_depth)
     = [GetFile ''abc'' ''1'' (Some ''pat''),
        GetNodes ''abc'' [JStr ''1:1'', JStr ''1:3'', JStr ''1:4'', JStr ''2:1''] (Some ''pat'')]"
  by (simp add: ex_blank_depth_def ex_defs ex_early_def model_defs)

text \<open>
  The handler of figma-enrich.js lacks the depth check that part_000 makes (line 67):
  a depth of \<open>9\<close>, which part_000 answers 400, is sent upstream.
\<close>

lemma enrich_sends_any_depth:
  "out_status (handler ex_env ex_up ex_early [] ex_deep_req) = 400 \<and>
   hd (out_calls (enrich_handler ex_env ex_up ex_deep_req)) = GetFile ''abc'' ''9'' (Some ''pat'')"
  by (simp add: ex_deep_req_def enrich_handler_def enrich_limit_of_def enrich_screens_def
      enrich_fetch_nodes_def ex_defs ex_early_def model_defs)

subsection \<open>Authorization\<close>

text \<open>
  The handler of part_000 answers 401, with no upstream call, whenever the configured
  secret is missing or empty or the header differs from it; any other answer to a GET
  request means that a non-empty secret is configured and the header equals it.
\<close>

lemma handler_unauthorized:
  assumes "req_method req = ''GET''"
    and "RELAY_KEY e = None \<or> RELAY_KEY e = Some [] \<or> x_relay_key req \<noteq> RELAY_KEY e"
  shows "handler e up clk c req = reply 401 (err_body ''Unauthorized'') c []"
  using assms by (auto simp: handler_def)

lemma handler_authorized_only:
  assumes "req_method req = ''GET''" and "out_status (handler e up clk c req) \<noteq> 401"
  shows "\<exists>k. k \<noteq> [] \<and> RELAY_KEY e = Some k \<and> x_relay_key req = Some k"
proof (rule ccontr)
  assume "\<nexists>k. k \<noteq> [] \<and> RELAY_KEY e = Some k \<and> x_relay_key req = Some k"
  then have "RELAY_KEY e = None \<or> RELAY_KEY e = Some [] \<or> x_relay_key req \<noteq> RELAY_KEY e"
    by (cases "RELAY_KEY e") auto
  from handler_unauthorized [OF assms(1) this, of up clk c] assms(2) show False
    by (simp add: reply_def)
qed

text \<open>
  Claim C1 fails on src/api/figma-enrich.js, which compares the header with the
  configured secret and nothing else (line 8). With no secret configured and no
  \<open>X-Relay-Key\<close> header both are \<open>undefined\<close>, the comparison finds them equal, and
  the request is served: status 200 after two upstream calls. The handler of part_000
  answers the same request 401 without any call.
\<close>

theorem enrich_open_relay:
  "RELAY_KEY ex_open_env = None \<and> x_relay_key ex_anon_req = None \<and>
   out_status (enrich_handler ex_open_env ex_up ex_anon_req) = 200 \<and>
   out_calls (enrich_handler ex_open_env ex_up ex_anon_req)
     = [GetFile ''abc'' ''1'' (Some ''pat''),
        GetNodes ''abc'' [JStr ''1:1'', JStr ''1:3'', JStr ''1:4'', JStr ''2:1''] (Some ''pat'')]"
  by (simp add: ex_open_env_def ex_anon_req_def enrich_handler_def enrich_limit_of_def enrich_screens_def
      enrich_fetch_nodes_def ex_defs model_defs)

lemma handler_closed_relay:
  "out_status (handler ex_open_env ex_up ex_early [] ex_anon_req) = 401 \<and>
   out_calls (handler ex_open_env ex_up ex_early [] ex_anon_req) = []"
  by (simp add: ex_open_env_def ex_anon_req_def ex_defs model_defs)

subsection \<open>The limit\<close>

text \<open>
  When the limit parameter (or the default \<open>10\<close>) parses as a number, the limit of
  part_000 is that number clamped into 1..25.
\<close>

lemma limit_of_number:
  "parseInt10 (or_default q ''10'') = Num n \<Longrightarrow> limit_of q = Num (min (max n 1) 25)"
  by (simp add: limit_of_def)

lemma limit_of_absent: "limit_of None = Num 10"
  by (simp add: limit_of_def parseInt10_def strip_sign_def is_ws_def is_digit_def digit_val_def)

lemma limit_of_range: "limit_of q = Num l \<Longrightarrow> 1 \<le> l \<and> l \<le> 25"
  by (cases "parseInt10 (or_default q ''10'')") (auto simp: limit_of_def)

lemma limit_of_not_number: "parseInt10 (or_default q ''10'') = NaN \<Longrightarrow> limit_of q = NaN"
  by (simp add: limit_of_def)

lemma pickNodes_NaN:
  "pickNodes nodes NaN acc = (False, acc @ map mk_screen (filter qualifies nodes))"
  by (induction nodes arbitrary: acc) (simp_all add: qualifies_def Let_def)

lemma pickPages_NaN:
  "list_all has_child_list (filter is_canvas pages) \<Longrightarrow>
   pickPages pages NaN acc = Inr (acc @ concat (map screens_of_canvas (filter is_canvas pages)))"
proof (induction pages arbitrary: acc)
  case Nil
  then show ?case by simp
next
  case (Cons page rest)
  show ?case
  proof (cases "is_canvas page")
    case False
    with Cons show ?thesis
      by (simp add: is_canvas_def)
  next
    case True
    with Cons.prems have kids: "has_child_list page" and rest: "list_all has_child_list (filter is_canvas rest)"
      by simp_all
    from Cons.IH [OF rest] True iterate_children [OF kids] show ?thesis
      by (simp add: is_canvas_def [symmetric] pickNodes_NaN screens_of_canvas_def)
  qed
qed

lemma pickTopScreens_NaN:
  assumes "tree_shaped fileJson"
  shows "pickTopScreens fileJson NaN =
           Inr (concat (map screens_of_canvas (filter is_canvas (children_of (opt_dot fileJson ''document'')))))"
  using assms pickPages_NaN [of "children_of (opt_dot fileJson ''document'')" "[]"]
  by (simp add: pickTopScreens_def tree_shaped_def iterate_children)

text \<open>
  Claim C2 fails at a limit that does not start with a number. \<open>parseInt\<close> gives
  \<open>NaN\<close>, which \<open>Math.max\<close> and \<open>Math.min\<close> pass on; no length is ever \<open>>= NaN\<close>,
  so the selection is not cut: for \<open>limit=abc\<close> and a canvas of 26 frames it returns
  all 26, and the cache key ends in \<open>l=NaN\<close>.
\<close>

theorem limit_not_a_number:
  "limit_of (Some ''abc'') = NaN \<and>
   cache_key ''abc'' ''1'' (limit_of (Some ''abc'')) = ''abc|d=1|l=NaN'' \<and>
   pickTopScreens ex_wide (limit_of (Some ''abc'')) = Inr (replicate 26 (ex_screen ''7:7''))"
proof -
  have l: "limit_of (Some ''abc'') = NaN"
    by (simp add: limit_of_def parseInt10_def strip_sign_def is_ws_def is_digit_def)
  have kids: "children_of (opt_dot ex_wide ''document'')
                = [JObj [(''type'', JStr ''CANVAS''), (''children'', JArr (replicate 26 (ex_node ''FRAME'' ''7:7'')))]]"
    by (simp add: ex_wide_def children_of_def js_or_def)
  have t: "tree_shaped ex_wide"
    unfolding tree_shaped_def kids by (simp add: ex_wide_def has_child_list_def is_canvas_def js_or_def)
  have q: "qualifies (ex_node ''FRAME'' ''7:7'')"
    by (simp add: qualifies_def is_screen_type_def ex_node_def)
  have m: "mk_screen (ex_node ''FRAME'' ''7:7'') = ex_screen ''7:7''"
    by (simp add: mk_screen_def ex_node_def ex_screen_def)
  have "pickTopScreens ex_wide NaN = Inr (replicate 26 (ex_screen ''7:7''))"
    unfolding pickTopScreens_NaN [OF t] kids
    using q m by (simp add: is_canvas_def screens_of_canvas_def children_of_def js_or_def)
  with l show ?thesis
    by (simp add: cache_key_def)
qed

text \<open>
  The limit of figma-enrich.js has no lower bound either: \<open>limit=0\<close> stays 0, and the
  check after each canvas then stops the walk after the first canvas, where
  part_000 (limit 1) goes on to the screen of the second.
\<close>

lemma enrich_limit_no_lower_bound:
  "enrich_limit_of (Some ''0'') = Num 0 \<and>
   enrich_screens ex_second_canvas (enrich_limit_of (Some ''0'')) = Inr [] \<and>
   pickTopScreens ex_second_canvas (limit_of (Some ''0'')) = Inr [ex_screen ''2:1'']"
  by (simp add: enrich_limit_of_def limit_of_def parseInt10_def strip_sign_def is_ws_def is_digit_def
      digit_val_def ex_second_canvas_def ex_node_def ex_screen_def enrich_screens_def pickTopScreens_def
      js_or_def is_screen_type_def mk_screen_def)

subsection \<open>Degrading when the node-detail fetch fails\<close>

text \<open>
  In the handler of part_000 a node-detail response with status 429, with any other
  status outside 200..299, or whose body does not parse, leaves \<open>nodes\<close> empty, and
  the request is still answered 200.
\<close>

lemma fetch_nodes_degrades:
  assumes "\<not> join_empty (map (\<lambda>s. opt_dot s ''id'') screens)"
    and "up (GetNodes fileKey (map (\<lambda>s. opt_dot s ''id'') screens) token) = Fetched r"
    and "up_status r = 429 \<or> \<not> resp_ok r \<or> up_json r = None"
  shows "fetch_nodes up fileKey token screens =
           (Inr (JObj []), [GetNodes fileKey (map (\<lambda>s. opt_dot s ''id'') screens) token])"
  using assms by (auto simp: fetch_nodes_def fetchJson_def Let_def)

lemma handler_survives_node_failure:
  assumes "passes_checks e req"
    and "\<not> truthy (fst (getCache (t_get clk) c (request_key req)))"
    and "up (file_call e req) = Fetched fr" and "up_status fr \<noteq> 429"
    and "f_ok (fetchJson fr)" and "truthy (f_json (fetchJson fr))"
    and "pickTopScreens (f_json (fetchJson fr)) (limit_of (q_limit req)) = Inr screens"
    and "\<not> join_empty (map (\<lambda>s. opt_dot s ''id'') screens)"
    and "up (GetNodes (the_str (q_file_key req)) (map (\<lambda>s. opt_dot s ''id'') screens) (FIGMA_PAT e)) = Fetched nr"
    and "up_status nr = 429 \<or> \<not> resp_ok nr \<or> up_json nr = None"
  shows "out_status (handler e up clk c req) = 200 \<and>
         opt_dot (out_body (handler e up clk c req)) ''nodes'' = JObj [] \<and>
         opt_dot (out_body (handler e up clk c req)) ''_cache'' = JStr ''miss_set''"
proof -
  have f: "up (GetFile (the_str (q_file_key req)) (or_default (q_depth req) ''1'') (FIGMA_PAT e)) = Fetched fr"
    using assms(3) by (simp add: file_call_def)
  from fetch_nodes_degrades [where up = up, OF assms(8,9,10)] f assms(2,4,5,6,7) show ?thesis
    by (simp add: handler_passes [OF assms(1)] on_miss_def fetchJson_status reply_def Let_def
        opt_dot_spread spread_with_def mk_payload_def)
qed

text \<open>
  Claim C3 fails on src/api/figma-enrich.js, which awaits \<open>nodesResp.json()\<close> inside
  the handler's \<open>try\<close> (line 60): when the node-detail response is a 200 whose body
  does not parse, the rejection reaches the \<open>catch\<close> and the answer is 500. The
  handler of part_000 answers the same request 200 with empty \<open>nodes\<close>.
\<close>

theorem enrich_unparsed_nodes:
  "ex_bad_nodes (GetNodes ''abc'' [JStr ''1:1'', JStr ''1:3'', JStr ''1:4'', JStr ''2:1''] (Some ''pat''))
     = Fetched \<lparr>up_status = 200, up_ctype = Some ''application/json'', up_json = None, up_text = None\<rparr> \<and>
   out_status (enrich_handler ex_env ex_bad_nodes ex_req) = 500 \<and>
   out_body (enrich_handler ex_env ex_bad_nodes ex_req)
     = JObj [(''error'', JStr ''Unexpected error''), (''detail'', JStr ''SyntaxError: Unexpected token'')]"
  by (simp add: enrich_handler_def enrich_limit_of_def enrich_screens_def enrich_fetch_nodes_def
      enrich_unexpected_def ex_defs model_defs)

lemma handler_unparsed_nodes:
  "out_status (handler ex_env ex_bad_nodes ex_early [] ex_req) = 200 \<and>
   opt_dot (out_body (handler ex_env ex_bad_nodes ex_early [] ex_req)) ''nodes'' = JObj []"
  by (simp add: ex_defs ex_early_def model_defs)

end
